theory Spec2Isabelle
  imports Complex_Main "HOL-Library.Multiset" "HOL-Library.AList"
begin

section \<open>Data model of EnecoDataPrepare.py\<close>

text \<open>
  A pandas cell. The type \<open>'f\<close> stands for the float64 values other than NaN (the finite
  ones, the two zeros, the infinities); NaN, the missing reading of a float column, is a
  cell of its own. The arithmetic on \<open>'f\<close> is numpy's and is not defined here: the
  functions take it as an argument (see \<open>pylib\<close> below). An \<open>Int64\<close> cell is a numpy
  int64, an integer from \<open>-2^63\<close> to \<open>2^63 - 1\<close>. The date column holds timestamps
  (nanoseconds since the epoch, or \<open>NaT\<close>) until \<open>prepareData\<close> turns it into whole epoch
  seconds.
\<close>

datatype 'f cell = Float 'f | NaN | Int64 int | Str string | Timestamp int | NaT

datatype error = KeyError | TypeError | ValueError | ReError

text \<open>
  A row maps column names to cells; a name the row does not hold reads as \<open>NaN\<close>, as a
  cell that pandas filled in. A data frame is its column names and its rows in positional
  order, each with its index label.
\<close>

type_synonym 'f row = "(string \<times> 'f cell) list"

record 'f dataframe =
  columns :: "string list"
  rows :: "(int \<times> 'f row) list"

definition cell_at :: "'f row \<Rightarrow> string \<Rightarrow> 'f cell" where
  "cell_at r c = (case map_of r c of None \<Rightarrow> NaN | Some v \<Rightarrow> v)"

text \<open>\<open>DataFilter = namedtuple('DataFilter', ['column', 'value', 'equal'])\<close>\<close>

record DataFilter =
  f_column :: string
  f_value :: string
  f_equal :: bool

text \<open>\<open>OutputFileDefinition = namedtuple(..., ['outputFileName', 'valueColumnName',
  'dataFilters', 'recalculate'])\<close>\<close>

record OutputFileDefinition =
  outputFileName :: string
  valueColumnName :: string
  dataFilters :: "DataFilter list"
  recalculate :: bool

text \<open>
  What the script takes from Python, numpy and pandas and the repository does not define:
  \<^item> \<open>re_compile\<close>: \<open>re.compile\<close> followed by \<open>search\<close> (\<open>None\<close> for a pattern that
    does not compile);
  \<^item> \<open>float_repr\<close>, \<open>timestamp_repr\<close>: the text \<open>astype(str)\<close> gives a float and a
    timestamp;
  \<^item> \<open>argsort\<close>: the index permutation \<open>sort_values\<close> obtains from numpy's \<open>argsort\<close>
    with the default \<open>kind='quicksort'\<close>;
  \<^item> \<open>float_add\<close>: float64 addition of two values that are not NaN, \<open>None\<close> when the
    sum is NaN (opposite infinities);
  \<^item> \<open>float_round3\<close>: \<open>round(x, 3)\<close> on a numpy float64 that is not NaN;
  \<^item> \<open>float_of_int\<close>: the float64 an int64 is converted to when it meets a float;
  \<^item> \<open>float_zero\<close>: the literal \<open>0.0\<close>;
  \<^item> \<open>epoch_seconds\<close>: \<open>(ns / 1000000000).astype('int64')\<close> on the int64 view of a
    timestamp, a float64 division followed by a truncation.
\<close>

record 'f pylib =
  re_compile :: "string \<Rightarrow> (string \<Rightarrow> bool) option"
  float_repr :: "'f \<Rightarrow> string"
  timestamp_repr :: "int \<Rightarrow> string"
  argsort :: "int list \<Rightarrow> nat list"
  float_add :: "'f \<Rightarrow> 'f \<Rightarrow> 'f option"
  float_round3 :: "'f \<Rightarrow> 'f"
  float_of_int :: "int \<Rightarrow> 'f"
  float_zero :: "'f"
  epoch_seconds :: "int \<Rightarrow> int"

subsection \<open>Template setup\<close>

definition inputFileDateColumnName :: string where
  "inputFileDateColumnName = ''Datum''"

definition mk_output :: "string \<Rightarrow> string \<Rightarrow> DataFilter list \<Rightarrow> bool \<Rightarrow> OutputFileDefinition" where
  "mk_output n c fs r =
     \<lparr>outputFileName = n, valueColumnName = c, dataFilters = fs, recalculate = r\<rparr>"

definition outputFiles :: "OutputFileDefinition list" where
  "outputFiles =
     [mk_output ''elec_feed_in_tariff_1_high_resolution.csv'' ''Meterstand hoogtarief (El 2)'' [] False,
      mk_output ''elec_feed_in_tariff_2_high_resolution.csv'' ''Meterstand laagtarief (El 1)'' [] False,
      mk_output ''elec_feed_out_tariff_1_high_resolution.csv'' ''Meterstand hoogtarief (El 4)'' [] False,
      mk_output ''elec_feed_out_tariff_2_high_resolution.csv'' ''Meterstand laagtarief (El 3)'' [] False,
      mk_output ''gas_high_resolution.csv'' ''Meterstand'' [] False]"

section \<open>prepareData\<close>

text \<open>
  \<open>datetime.datetime.strptime(s, '%d-%m-%Y')\<close> on the two literals of line 67, as
  nanoseconds since 1970-01-01 00:00:00: two digits, a dash, two digits, a dash, four
  digits. The day count is the usual proleptic Gregorian one.
\<close>

definition digit :: "char \<Rightarrow> int option" where
  "digit c = (let n = (of_char c :: nat) in
               if 48 \<le> n \<and> n \<le> 57 then Some (int n - 48) else None)"

fun number :: "char list \<Rightarrow> int option" where
  "number [] = None"
| "number cs = fold (\<lambda>c acc. case (acc, digit c) of (Some a, Some d) \<Rightarrow> Some (10 * a + d) | _ \<Rightarrow> None)
                 cs (Some 0)"

definition days_from_civil :: "int \<Rightarrow> int \<Rightarrow> int \<Rightarrow> int" where
  "days_from_civil y m d =
     (let y' = (if m \<le> 2 then y - 1 else y);
          era = y' div 400;
          yoe = y' - era * 400;
          doy = (153 * (if m > 2 then m - 3 else m + 9) + 2) div 5 + d - 1;
          doe = yoe * 365 + yoe div 4 - yoe div 100 + doy
      in era * 146097 + doe - 719468)"

definition strptime_dmy :: "string \<Rightarrow> int option" where
  "strptime_dmy s =
     (if length s = 10 \<and> s ! 2 = CHR ''-'' \<and> s ! 5 = CHR ''-'' then
        (case (number (take 2 s), number (take 2 (drop 3 s)), number (drop 6 s)) of
           (Some d, Some m, Some y) \<Rightarrow>
             if 1 \<le> m \<and> m \<le> 12 \<and> 1 \<le> d \<and> d \<le> 31
             then Some (days_from_civil y m d * 86400 * 1000000000) else None
         | _ \<Rightarrow> None)
      else None)"

text \<open>
  The comparison of one cell of the date column with the two bounds. \<open>NaT\<close> compares
  false; a cell that is no timestamp makes the column's comparison raise.
\<close>

fun date_in_bounds :: "int \<Rightarrow> int \<Rightarrow> 'f cell \<Rightarrow> error + bool" where
  "date_in_bounds lo hi (Timestamp t) = Inr (lo \<le> t \<and> t \<le> hi)"
| "date_in_bounds lo hi NaT = Inr False"
| "date_in_bounds lo hi _ = Inl TypeError"

fun sequence :: "(error + 'a) list \<Rightarrow> error + 'a list" where
  "sequence [] = Inr []"
| "sequence (x # xs) =
     (case x of Inl e \<Rightarrow> Inl e
      | Inr v \<Rightarrow> (case sequence xs of Inl e \<Rightarrow> Inl e | Inr vs \<Rightarrow> Inr (v # vs)))"

text \<open>\<open>df[mask]\<close> and \<open>df.loc[mask]\<close>: the rows whose mask entry is true, in order.\<close>

definition getitem_mask :: "'f dataframe \<Rightarrow> bool list \<Rightarrow> 'f dataframe" where
  "getitem_mask df keep = df\<lparr>rows := map fst (filter snd (zip (rows df) keep))\<rparr>"

text \<open>
  \<open>(df[c].view('int64') / 1000000000).astype('int64')\<close> on one cell of the date column:
  the nanoseconds of the timestamp, divided in float64 and truncated to an int64.
\<close>

fun to_epoch_seconds :: "'f pylib \<Rightarrow> 'f cell \<Rightarrow> 'f cell" where
  "to_epoch_seconds lib (Timestamp t) = Int64 (epoch_seconds lib t)"
| "to_epoch_seconds lib c = c"

text \<open>
  \<open>prepareData\<close>, lines 63 to 78. The mask of line 67 is computed for the whole column
  first (\<open>KeyError\<close> without the date column, \<open>TypeError\<close> for a column that does not
  compare with a datetime); \<open>.loc[mask]\<close> gives a new frame, which is sorted by the
  timestamps and whose date column is then overwritten. \<open>sort_values\<close> reorders the rows
  by the positions \<open>argsort\<close> returns for the keys. \<open>exec(dataPreparation)\<close> runs the
  empty string of the template setup and does nothing.
\<close>

definition timestamp_key :: "'f row \<Rightarrow> int" where
  "timestamp_key r = (case cell_at r inputFileDateColumnName of Timestamp t \<Rightarrow> t | _ \<Rightarrow> 0)"

definition set_date :: "'f pylib \<Rightarrow> int \<times> 'f row \<Rightarrow> int \<times> 'f row" where
  "set_date lib lr = (fst lr, AList.update inputFileDateColumnName
                        (to_epoch_seconds lib (cell_at (snd lr) inputFileDateColumnName)) (snd lr))"

definition prepareData :: "'f pylib \<Rightarrow> 'f dataframe \<Rightarrow> error + 'f dataframe" where
  "prepareData lib dataFrame =
     (if inputFileDateColumnName \<notin> set (columns dataFrame) then Inl KeyError
      else case (strptime_dmy ''01-01-1970'', strptime_dmy ''31-12-2099'') of
        (Some lo, Some hi) \<Rightarrow>
          (case sequence (map (\<lambda>lr. date_in_bounds lo hi (cell_at (snd lr) inputFileDateColumnName))
                            (rows dataFrame)) of
             Inl e \<Rightarrow> Inl e
           | Inr keep \<Rightarrow>
               let df = getitem_mask dataFrame keep;
                   order = argsort lib (map (\<lambda>lr. timestamp_key (snd lr)) (rows df));
                   sorted_rows = map (\<lambda>i. rows df ! i) order
               in Inr (df\<lparr>rows := map (set_date lib) sorted_rows\<rparr>))
      | _ \<Rightarrow> Inl ValueError)"

section \<open>The store of data frames\<close>

text \<open>
  Python variables hold references. \<open>filterData\<close> returns the very object it was given
  when there is no filter, and \<open>recalculateData\<close> writes into the object it was given, so
  the frames live in a store and the functions pass references.
\<close>

record 'f store =
  frames :: "nat \<Rightarrow> 'f dataframe"
  next_ref :: nat

definition empty_store :: "'f store" where
  "empty_store = \<lparr>frames = (\<lambda>_. \<lparr>columns = [], rows = []\<rparr>), next_ref = 0\<rparr>"

definition new_frame :: "'f store \<Rightarrow> 'f dataframe \<Rightarrow> 'f store \<times> nat" where
  "new_frame s df = (s\<lparr>frames := (frames s)(next_ref s := df), next_ref := Suc (next_ref s)\<rparr>, next_ref s)"

section \<open>filterData\<close>

text \<open>\<open>df[c]\<close>: the cells of a column in row order; \<open>KeyError\<close> for a name that is no column.\<close>

definition getitem_column :: "'f dataframe \<Rightarrow> string \<Rightarrow> error + 'f cell list" where
  "getitem_column df c =
     (if c \<in> set (columns df) then Inr (map (\<lambda>lr. cell_at (snd lr) c) (rows df)) else Inl KeyError)"

text \<open>
  \<open>astype(str)\<close> on one cell: a string is itself, an integer its decimal digits, NaN the
  text \<open>nan\<close>; the text of a float and of a timestamp are the library's.
\<close>

function string_of_nat :: "nat \<Rightarrow> string" where
  "string_of_nat n =
     (if n < 10 then [char_of (48 + n)] else string_of_nat (n div 10) @ [char_of (48 + n mod 10)])"
  by pat_completeness auto
termination
  by (relation "measure id") auto

fun astype_str :: "'f pylib \<Rightarrow> 'f cell \<Rightarrow> string" where
  "astype_str lib (Str s) = s"
| "astype_str lib (Float x) = float_repr lib x"
| "astype_str lib NaN = ''nan''"
| "astype_str lib (Int64 i) = (if i < 0 then CHR ''-'' # string_of_nat (nat (- i)) else string_of_nat (nat i))"
| "astype_str lib (Timestamp t) = timestamp_repr lib t"
| "astype_str lib NaT = ''NaT''"

text \<open>
  \<open>filterData\<close>, lines 82 to 95. \<open>df = dataFrame\<close> copies the reference; each filter
  reads the column (\<open>KeyError\<close> if it is missing), compiles the pattern, searches the
  string form of every cell, negates the result for \<open>equal = False\<close>, and binds \<open>df\<close> to
  the new frame \<open>df[series]\<close>. With no filter the reference returned is the one given.
\<close>

fun filterData :: "'f pylib \<Rightarrow> 'f store \<Rightarrow> nat \<Rightarrow> DataFilter list \<Rightarrow> error + ('f store \<times> nat)" where
  "filterData lib s df [] = Inr (s, df)"
| "filterData lib s df (dataFilter # filters) =
     (case getitem_column (frames s df) (f_column dataFilter) of
        Inl e \<Rightarrow> Inl e
      | Inr col \<Rightarrow>
          (case re_compile lib (f_value dataFilter) of
             None \<Rightarrow> Inl ReError
           | Some search \<Rightarrow>
               (let series = map (\<lambda>c. search (astype_str lib c)) col;
                    series' = (if \<not> f_equal dataFilter then map Not series else series);
                    sd = new_frame s (getitem_mask (frames s df) series')
                in filterData lib (fst sd) (snd sd) filters)))"

section \<open>recalculateData\<close>

text \<open>
  \<open>df.at[label, c]\<close> as a read: \<open>KeyError\<close> for a missing column or label. With a label
  that several rows carry pandas returns a Series, on which \<open>math.isnan\<close> raises
  \<open>TypeError\<close>; the loop reads every label through \<open>math.isnan\<close> first.
\<close>

definition at_get :: "'f dataframe \<Rightarrow> int \<Rightarrow> string \<Rightarrow> error + 'f cell" where
  "at_get df l c =
     (if c \<notin> set (columns df) then Inl KeyError
      else case filter (\<lambda>lr. fst lr = l) (rows df) of
             [] \<Rightarrow> Inl KeyError
           | [lr] \<Rightarrow> Inr (cell_at (snd lr) c)
           | _ \<Rightarrow> Inl TypeError)"

definition at_set :: "'f dataframe \<Rightarrow> int \<Rightarrow> string \<Rightarrow> 'f cell \<Rightarrow> 'f dataframe" where
  "at_set df l c v =
     df\<lparr>rows := map (\<lambda>lr. if fst lr = l then (fst lr, AList.update c v (snd lr)) else lr) (rows df)\<rparr>"

text \<open>
  \<open>math.isnan\<close> on a cell: \<open>TypeError\<close> on strings and timestamps.
\<close>

fun math_isnan :: "'f cell \<Rightarrow> error + bool" where
  "math_isnan NaN = Inr True"
| "math_isnan (Float x) = Inr False"
| "math_isnan (Int64 i) = Inr False"
| "math_isnan _ = Inl TypeError"

text \<open>
  \<open>+\<close> and \<open>round(x, 3)\<close> on the cells \<open>df.at\<close> returns from a numeric column. The sum
  of two floats and the rounding of a float are the library's; an int64 that meets a
  float is converted first; two int64 are added with wrap-around; NaN gives NaN;
  \<open>round\<close> leaves an int64 as it is.
\<close>

fun is_numeric :: "'f cell \<Rightarrow> bool" where
  "is_numeric (Float x) = True"
| "is_numeric NaN = True"
| "is_numeric (Int64 i) = True"
| "is_numeric _ = False"

definition wrap_int64 :: "int \<Rightarrow> int" where
  "wrap_int64 n = (n + 2 ^ 63) mod 2 ^ 64 - 2 ^ 63"

definition float_result :: "'f option \<Rightarrow> 'f cell" where
  "float_result r = (case r of None \<Rightarrow> NaN | Some z \<Rightarrow> Float z)"

fun cell_add :: "'f pylib \<Rightarrow> 'f cell \<Rightarrow> 'f cell \<Rightarrow> 'f cell" where
  "cell_add lib (Float x) (Float y) = float_result (float_add lib x y)"
| "cell_add lib (Float x) (Int64 j) = float_result (float_add lib x (float_of_int lib j))"
| "cell_add lib (Int64 i) (Float y) = float_result (float_add lib (float_of_int lib i) y)"
| "cell_add lib (Int64 i) (Int64 j) = Int64 (wrap_int64 (i + j))"
| "cell_add lib _ _ = NaN"

fun cell_round3 :: "'f pylib \<Rightarrow> 'f cell \<Rightarrow> 'f cell" where
  "cell_round3 lib (Float x) = Float (float_round3 lib x)"
| "cell_round3 lib c = c"

text \<open>
  The two operations as the loop calls them. It applies them only to cells that have
  passed \<open>math.isnan\<close>, so the \<open>TypeError\<close> of the other cells is never reached.
\<close>

definition py_add :: "'f pylib \<Rightarrow> 'f cell \<Rightarrow> 'f cell \<Rightarrow> error + 'f cell" where
  "py_add lib a b = (if is_numeric a \<and> is_numeric b then Inr (cell_add lib a b) else Inl TypeError)"

definition py_round3 :: "'f pylib \<Rightarrow> 'f cell \<Rightarrow> error + 'f cell" where
  "py_round3 lib a = (if is_numeric a then Inr (cell_round3 lib a) else Inl TypeError)"

text \<open>
  The loop of lines 103 to 112 over the labels \<open>df.iterrows()\<close> yields, with
  \<open>previousRowIndex\<close> and the frame as its state.
\<close>

fun recalc_loop ::
  "'f pylib \<Rightarrow> string \<Rightarrow> int list \<Rightarrow> int \<Rightarrow> 'f dataframe \<Rightarrow> error + 'f dataframe" where
  "recalc_loop lib dataColumnName [] previousRowIndex df = Inr df"
| "recalc_loop lib dataColumnName (index # rest) previousRowIndex df =
     (case at_get df index dataColumnName of
        Inl e \<Rightarrow> Inl e
      | Inr v \<Rightarrow>
          (case math_isnan v of
             Inl e \<Rightarrow> Inl e
           | Inr b \<Rightarrow>
               (let df1 = (if b then at_set df index dataColumnName (Float (float_zero lib)) else df) in
                if previousRowIndex > -1 then
                  (case at_get df1 index dataColumnName of
                     Inl e \<Rightarrow> Inl e
                   | Inr cur \<Rightarrow>
                       (case at_get df1 previousRowIndex dataColumnName of
                          Inl e \<Rightarrow> Inl e
                        | Inr prev \<Rightarrow>
                            (case py_add lib cur prev of
                               Inl e \<Rightarrow> Inl e
                             | Inr summed \<Rightarrow>
                                 (case py_round3 lib summed of
                                    Inl e \<Rightarrow> Inl e
                                  | Inr rounded \<Rightarrow>
                                      recalc_loop lib dataColumnName rest index
                                        (at_set df1 index dataColumnName rounded)))))
                else recalc_loop lib dataColumnName rest index df1)))"

text \<open>
  \<open>recalculateData\<close>, lines 99 to 114: \<open>df = dataFrame\<close> copies the reference, the loop
  writes into the frame behind it, and the same reference is returned.
\<close>

definition recalculateData ::
  "'f pylib \<Rightarrow> 'f store \<Rightarrow> nat \<Rightarrow> string \<Rightarrow> error + ('f store \<times> nat)" where
  "recalculateData lib s dataFrame dataColumnName =
     (case recalc_loop lib dataColumnName (map fst (rows (frames s dataFrame))) (-1) (frames s dataFrame) of
        Inl e \<Rightarrow> Inl e
      | Inr df \<Rightarrow> Inr (s\<lparr>frames := (frames s)(dataFrame := df)\<rparr>, dataFrame))"

section \<open>generateImportDataFile and the loop over the output definitions\<close>

text \<open>
  \<open>df.filter(items)\<close>: pandas intersects \<open>items\<close> with the columns, which keeps each item
  that is a column once, in the order of its first occurrence in \<open>items\<close>.
\<close>

definition filter_items :: "'f dataframe \<Rightarrow> string list \<Rightarrow> 'f dataframe" where
  "filter_items df items =
     (let cs = filter (\<lambda>c. c \<in> set (columns df)) (rev (remdups (rev items)))
      in \<lparr>columns = cs, rows = map (\<lambda>lr. (fst lr, map (\<lambda>c. (c, cell_at (snd lr) c)) cs)) (rows df)\<rparr>)"

text \<open>What \<open>to_csv(header = False, index = False)\<close> writes: per row, the cells in column order.\<close>

definition to_csv :: "'f dataframe \<Rightarrow> 'f cell list list" where
  "to_csv df = map (\<lambda>lr. map (cell_at (snd lr)) (columns df)) (rows df)"

type_synonym 'f csv_file = "string \<times> 'f cell list list"

text \<open>
  \<open>generateImportDataFile\<close>, lines 118 to 134: the store after the call and the file
  written, \<open>None\<close> when the value column is missing and only a message is printed.
  Console messages are not part of the model.
\<close>

definition generateImportDataFile ::
  "'f pylib \<Rightarrow> 'f store \<Rightarrow> nat \<Rightarrow> string \<Rightarrow> string \<Rightarrow> DataFilter list \<Rightarrow> bool
     \<Rightarrow> error + ('f store \<times> 'f csv_file option)" where
  "generateImportDataFile lib s dataFrame outputFile dataColumnName filters recalc =
     (if dataColumnName \<in> set (columns (frames s dataFrame)) then
        (case filterData lib s dataFrame filters of
           Inl e \<Rightarrow> Inl e
         | Inr (s1, dataFrameFiltered) \<Rightarrow>
             (case (if recalc then recalculateData lib s1 dataFrameFiltered dataColumnName
                    else Inr (s1, dataFrameFiltered)) of
                Inl e \<Rightarrow> Inl e
              | Inr (s2, dataFrameFiltered2) \<Rightarrow>
                  (let sd = new_frame s2 (filter_items (frames s2 dataFrameFiltered2)
                                             [inputFileDateColumnName, dataColumnName])
                   in Inr (fst sd, Some (outputFile, to_csv (frames (fst sd) (snd sd)))))))
      else Inr (s, None))"

text \<open>
  Lines 189 and 190: the files written so far, and the exception that ended the loop, if
  one did. Nothing in the script catches an exception.
\<close>

fun output_loop ::
  "'f pylib \<Rightarrow> 'f store \<Rightarrow> nat \<Rightarrow> OutputFileDefinition list \<Rightarrow> 'f csv_file list
     \<Rightarrow> 'f store \<times> 'f csv_file list \<times> error option" where
  "output_loop lib s dataFrame [] written = (s, written, None)"
| "output_loop lib s dataFrame (outputFile # rest) written =
     (case generateImportDataFile lib s dataFrame (outputFileName outputFile)
             (valueColumnName outputFile) (dataFilters outputFile) (recalculate outputFile) of
        Inl e \<Rightarrow> (s, written, Some e)
      | Inr (s', w) \<Rightarrow>
          output_loop lib s' dataFrame rest
            (written @ (case w of None \<Rightarrow> [] | Some f \<Rightarrow> [f])))"

text \<open>
  Lines 185 to 190 of \<open>generateImportDataFiles\<close>, from the concatenated table of line 183
  on (the loaders and \<open>pd.concat\<close> are the library's).
\<close>

definition generateImportDataFiles ::
  "'f pylib \<Rightarrow> 'f dataframe \<Rightarrow> OutputFileDefinition list \<Rightarrow> 'f csv_file list \<times> error option" where
  "generateImportDataFiles lib concatenated outputs =
     (case prepareData lib concatenated of
        Inl e \<Rightarrow> ([], Some e)
      | Inr df \<Rightarrow>
          (let sd = new_frame empty_store df
           in snd (output_loop lib (fst sd) (snd sd) outputs [])))"

section \<open>Notions of the specification\<close>

text \<open>
  The accumulation as section 4.3 of the spec words it, on the raw cells of the value
  column: a missing value counts as 0.0; the first value becomes the running total; each
  later row stores the previous total plus its own raw value, rounded to three decimals
  after the addition. The sum and the rounding are Python's and numpy's, the same ones
  the code calls. The code adds the previous total to the raw value, the spec the raw
  value to the previous total: the two agree because float64 addition is commutative,
  which is the one fact about the library the comparison uses.
\<close>

definition nan_to_zero :: "'f pylib \<Rightarrow> 'f cell \<Rightarrow> 'f cell" where
  "nan_to_zero lib v = (if v = NaN then Float (float_zero lib) else v)"

fun spec_accumulate :: "'f pylib \<Rightarrow> 'f cell \<Rightarrow> 'f cell list \<Rightarrow> 'f cell list" where
  "spec_accumulate lib running [] = []"
| "spec_accumulate lib running (v # vs) =
     (let running' = cell_round3 lib (cell_add lib running (nan_to_zero lib v))
      in running' # spec_accumulate lib running' vs)"

definition spec_recalculate :: "'f pylib \<Rightarrow> 'f cell list \<Rightarrow> 'f cell list" where
  "spec_recalculate lib vs =
     (case vs of [] \<Rightarrow> []
      | v # rest \<Rightarrow> nan_to_zero lib v # spec_accumulate lib (nan_to_zero lib v) rest)"

definition float_add_commutes :: "'f pylib \<Rightarrow> bool" where
  "float_add_commutes lib \<longleftrightarrow> (\<forall>x y. float_add lib x y = float_add lib y x)"

text \<open>
  The cells of a column in row order, and the frame and the column behind the reference a
  function returned.
\<close>

definition column_cells :: "string \<Rightarrow> (int \<times> 'f row) list \<Rightarrow> 'f cell list" where
  "column_cells c rs = map (\<lambda>lr. cell_at (snd lr) c) rs"

definition result_column :: "string \<Rightarrow> error + ('f store \<times> nat) \<Rightarrow> error + 'f cell list" where
  "result_column c res =
     (case res of Inl e \<Rightarrow> Inl e
      | Inr sr \<Rightarrow> Inr (column_cells c (rows (frames (fst sr) (snd sr)))))"

definition result_frame :: "error + ('f store \<times> nat) \<Rightarrow> error + 'f dataframe" where
  "result_frame res = (case res of Inl e \<Rightarrow> Inl e | Inr sr \<Rightarrow> Inr (frames (fst sr) (snd sr)))"

text \<open>The store that holds one frame, at reference 0.\<close>

definition store_of :: "'f dataframe \<Rightarrow> 'f store" where
  "store_of df = fst (new_frame empty_store df)"

text \<open>
  The rows \<open>recalculateData\<close> leaves, row by row: the form in which the loop is compared
  with the fold of the spec.
\<close>

fun recalc_rows :: "'f pylib \<Rightarrow> string \<Rightarrow> 'f cell \<Rightarrow> (int \<times> 'f row) list \<Rightarrow> (int \<times> 'f row) list" where
  "recalc_rows lib c t [] = []"
| "recalc_rows lib c t (lr # rest) =
     (let t' = cell_round3 lib (cell_add lib (nan_to_zero lib (cell_at (snd lr) c)) t)
      in (fst lr, AList.update c t' (snd lr)) # recalc_rows lib c t' rest)"

definition recalc_all :: "'f pylib \<Rightarrow> string \<Rightarrow> (int \<times> 'f row) list \<Rightarrow> (int \<times> 'f row) list" where
  "recalc_all lib c rs =
     (case rs of [] \<Rightarrow> []
      | lr # post \<Rightarrow>
          (fst lr, if cell_at (snd lr) c = NaN
                   then AList.update c (Float (float_zero lib)) (snd lr) else snd lr)
          # recalc_rows lib c (nan_to_zero lib (cell_at (snd lr) c)) post)"

text \<open>Two frames that differ at most in the cells of one column.\<close>

definition kept_except :: "string \<Rightarrow> 'f dataframe \<Rightarrow> 'f dataframe \<Rightarrow> bool" where
  "kept_except c df df' \<longleftrightarrow>
     columns df' = columns df \<and> map fst (rows df') = map fst (rows df) \<and>
     (\<forall>c'. c' \<noteq> c \<longrightarrow> column_cells c' (rows df') = column_cells c' (rows df))"

text \<open>
  The test of one filter on one row, in the words of the spec: the string form of the
  row's value in the filter's column contains a match of the pattern, inverted when the
  filter is not inclusive.
\<close>

definition filter_test :: "'f pylib \<Rightarrow> DataFilter \<Rightarrow> int \<times> 'f row \<Rightarrow> bool" where
  "filter_test lib f lr =
     (case re_compile lib (f_value f) of
        None \<Rightarrow> False
      | Some search \<Rightarrow>
          (if f_equal f then search (astype_str lib (cell_at (snd lr) (f_column f)))
           else \<not> search (astype_str lib (cell_at (snd lr) (f_column f)))))"

definition passes :: "'f pylib \<Rightarrow> DataFilter list \<Rightarrow> int \<times> 'f row \<Rightarrow> bool" where
  "passes lib fs lr = list_all (\<lambda>f. filter_test lib f lr) fs"

text \<open>Every filter names a column of the frame and a pattern that compiles.\<close>

definition filters_ok :: "'f pylib \<Rightarrow> 'f dataframe \<Rightarrow> DataFilter list \<Rightarrow> bool" where
  "filters_ok lib df fs =
     list_all (\<lambda>f. f_column f \<in> set (columns df) \<and> re_compile lib (f_value f) \<noteq> None) fs"

text \<open>
  The contract of \<open>argsort\<close> whatever its kind: a permutation of the positions that puts
  the keys in ascending order. The default kind, quicksort, promises nothing about ties.
\<close>

definition argsort_ok :: "(int list \<Rightarrow> nat list) \<Rightarrow> bool" where
  "argsort_ok srt \<longleftrightarrow>
     (\<forall>ks. mset (srt ks) = mset [0..<length ks] \<and> sorted (map (\<lambda>i. ks ! i) (srt ks)))"

text \<open>A datetime column, as \<open>pd.to_datetime\<close> leaves the date column in \<open>readInputFile\<close>.\<close>

fun is_datetime :: "'f cell \<Rightarrow> bool" where
  "is_datetime (Timestamp t) = True"
| "is_datetime NaT = True"
| "is_datetime _ = False"


text \<open>
  The bound read as an interval of instants: the timestamp is one from
  1970-01-01 00:00:00 to 2099-12-31 00:00:00, in nanoseconds.
\<close>

definition within_midnight_bounds :: "int \<times> 'f row \<Rightarrow> bool" where
  "within_midnight_bounds lr =
     (case cell_at (snd lr) inputFileDateColumnName of
        Timestamp t \<Rightarrow> days_from_civil 1970 1 1 * 86400000000000 \<le> t
                         \<and> t \<le> days_from_civil 2099 12 31 * 86400000000000
      | _ \<Rightarrow> False)"

text \<open>
  The date of a row of the assembled dataset, in epoch seconds, and the rows in the order
  \<open>sort_values\<close> puts them.
\<close>

definition epoch_key :: "int \<times> 'f row \<Rightarrow> int" where
  "epoch_key lr = (case cell_at (snd lr) inputFileDateColumnName of Int64 n \<Rightarrow> n | _ \<Rightarrow> 0)"

definition sort_rows :: "'f pylib \<Rightarrow> (int \<times> 'f row) list \<Rightarrow> (int \<times> 'f row) list" where
  "sort_rows lib kept = map (\<lambda>i. kept ! i) (argsort lib (map (\<lambda>lr. timestamp_key (snd lr)) kept))"

section \<open>Library stand-ins and data of the scenarios\<close>

text \<open>
  The scenarios are run with stand-ins for the library; no theorem about an arbitrary
  \<open>pylib\<close> depends on them. Floats are rationals; the sum is the exact sum and
  \<open>round(x, 3)\<close> the nearest multiple of 0.001, a tie to the even one. That is what
  float64 and numpy compute when the operands, the sum and the thousandfold of the sum
  are exactly representable, as they are in the scenarios below (the one value that is
  not, 0.0004, is only added to 0.0 and rounded to 0.0, as its float64 is). The epoch
  seconds are the exact quotient truncated, which is what the float64 division gives for
  a timestamp of whole seconds. A search is a test for a substring, which is what \<open>re\<close>
  computes for a pattern without metacharacters. The text of a float and of a timestamp
  and the \<open>argsort\<close> stay arguments.
\<close>

fun contains_literal :: "string \<Rightarrow> string \<Rightarrow> bool" where
  "contains_literal pat [] = (pat = [])"
| "contains_literal pat (c # cs) = (take (length pat) (c # cs) = pat \<or> contains_literal pat cs)"

definition round_half_even :: "rat \<Rightarrow> int" where
  "round_half_even y =
     (let f = \<lfloor>y\<rfloor>; d = y - of_int f
      in if d < 1 / 2 then f else if 1 / 2 < d then f + 1 else if even f then f else f + 1)"

definition round3 :: "rat \<Rightarrow> rat" where
  "round3 x = of_int (round_half_even (x * 1000)) / 1000"

definition literal_lib :: "(rat \<Rightarrow> string) \<Rightarrow> (int \<Rightarrow> string) \<Rightarrow> (int list \<Rightarrow> nat list) \<Rightarrow> rat pylib" where
  "literal_lib fr tr srt =
     \<lparr>re_compile = (\<lambda>pat. Some (contains_literal pat)), float_repr = fr, timestamp_repr = tr,
      argsort = srt, float_add = (\<lambda>x y. Some (x + y)), float_round3 = round3,
      float_of_int = of_int, float_zero = 0,
      epoch_seconds = (\<lambda>t. sgn t * (\<bar>t\<bar> div 1000000000))\<rparr>"

text \<open>
  Stand-ins for the remaining library functions: the text of a float with a finite
  decimal expansion, the text of a whole-second timestamp, and a stable \<open>argsort\<close>.
\<close>

fun frac_digits :: "nat \<Rightarrow> rat \<Rightarrow> string" where
  "frac_digits 0 f = []"
| "frac_digits (Suc k) f =
     (if f = 0 then []
      else (let d = \<lfloor>f * 10\<rfloor> in char_of (48 + nat d) # frac_digits k (f * 10 - of_int d)))"

definition float_text :: "rat \<Rightarrow> string" where
  "float_text x =
     (let a = \<bar>x\<bar>; n = \<lfloor>a\<rfloor>; f = a - of_int n
      in (if x < 0 then ''-'' else []) @ string_of_nat (nat n) @ ''.''
         @ (if f = 0 then ''0'' else frac_digits 17 f))"

definition pad2 :: "int \<Rightarrow> string" where
  "pad2 n = (if n < 10 then CHR ''0'' # string_of_nat (nat n) else string_of_nat (nat n))"

definition civil_from_days :: "int \<Rightarrow> int \<times> int \<times> int" where
  "civil_from_days z0 =
     (let z = z0 + 719468;
          era = z div 146097;
          doe = z - era * 146097;
          yoe = (doe - doe div 1460 + doe div 36524 - doe div 146096) div 365;
          doy = doe - (365 * yoe + yoe div 4 - yoe div 100);
          mp = (5 * doy + 2) div 153;
          d = doy - (153 * mp + 2) div 5 + 1;
          m = (if mp < 10 then mp + 3 else mp - 9);
          y = yoe + era * 400 + (if m \<le> 2 then 1 else 0)
      in (y, m, d))"

definition timestamp_text :: "int \<Rightarrow> string" where
  "timestamp_text t =
     (let secs = t div 1000000000; days = secs div 86400; s = secs mod 86400;
          ymd = civil_from_days days
      in string_of_nat (nat (fst ymd)) @ ''-'' @ pad2 (fst (snd ymd)) @ ''-'' @ pad2 (snd (snd ymd))
         @ '' '' @ pad2 (s div 3600) @ '':'' @ pad2 (s mod 3600 div 60) @ '':'' @ pad2 (s mod 60))"

definition stable_argsort :: "int list \<Rightarrow> nat list" where
  "stable_argsort ks = sort_key (\<lambda>i. ks ! i) [0..<length ks]"

definition plain_lib :: "rat pylib" where
  "plain_lib = literal_lib float_text timestamp_text stable_argsort"

text \<open>The frames and output definitions of the scenarios.\<close>

definition parsed_date :: "string \<Rightarrow> rat cell" where
  "parsed_date s = (case strptime_dmy s of Some t \<Rightarrow> Timestamp t | None \<Rightarrow> NaT)"

definition scenario_A :: "rat dataframe" where
  "scenario_A =
     \<lparr>columns = [''Datum'', ''v''],
      rows = [(0, [(''Datum'', Int64 1577836800), (''v'', Float 10)]),
              (1, [(''Datum'', Int64 1577923200), (''v'', Float 5)]),
              (2, [(''Datum'', Int64 1578009600), (''v'', NaN)])]\<rparr>"

text \<open>The value column as \<open>read_excel\<close> types it when every reading is an integer.\<close>

definition int_readings :: "rat dataframe" where
  "int_readings =
     \<lparr>columns = [''Datum'', ''v''],
      rows = [(0, [(''Datum'', Int64 1577836800), (''v'', Int64 10)]),
              (1, [(''Datum'', Int64 1577923200), (''v'', Int64 5)])]\<rparr>"

text \<open>
  A first reading with more than three decimals, followed by a reading of zero: once
  0.0004 (the float64 next to it), once 0.000244140625, which is \<open>2^-12\<close> and goes
  through float64 exactly.
\<close>

definition small_first :: "rat dataframe" where
  "small_first =
     \<lparr>columns = [''Datum'', ''v''],
      rows = [(0, [(''Datum'', Int64 1577836800), (''v'', Float (4 / 10000))]),
              (1, [(''Datum'', Int64 1577923200), (''v'', Float 0)])]\<rparr>"

definition dyadic_first :: "rat dataframe" where
  "dyadic_first =
     \<lparr>columns = [''Datum'', ''v''],
      rows = [(0, [(''Datum'', Int64 1577836800), (''v'', Float (1 / 4096))]),
              (1, [(''Datum'', Int64 1577923200), (''v'', Float 0)])]\<rparr>"

text \<open>The raw deltas of C2 are not negative; the value of a float cell, 0 for NaN.\<close>

fun nonneg_or_nan :: "rat cell \<Rightarrow> bool" where
  "nonneg_or_nan (Float x) = (0 \<le> x)"
| "nonneg_or_nan NaN = True"
| "nonneg_or_nan _ = False"

definition float_value :: "rat cell \<Rightarrow> rat" where
  "float_value c = (case c of Float x \<Rightarrow> x | _ \<Rightarrow> 0)"

definition scenario_B :: "rat dataframe" where
  "scenario_B =
     \<lparr>columns = [''Datum'', ''Type'', ''v''],
      rows = [(0, [(''Datum'', Int64 1577836800), (''Type'', Str ''High''), (''v'', Float 1)]),
              (1, [(''Datum'', Int64 1577923200), (''Type'', Str ''Low''), (''v'', Float 2)]),
              (2, [(''Datum'', Int64 1578009600), (''Type'', Str ''High''), (''v'', Float 3)])]\<rparr>"

definition type_is_high :: DataFilter where
  "type_is_high = \<lparr>f_column = ''Type'', f_value = ''High'', f_equal = True\<rparr>"

definition two_rows :: "rat dataframe" where
  "two_rows =
     \<lparr>columns = [''Datum'', ''v''],
      rows = [(0, [(''Datum'', Int64 1577836800), (''v'', Float 10)]),
              (1, [(''Datum'', Int64 1577923200), (''v'', Float 5)])]\<rparr>"

definition out_a :: OutputFileDefinition where
  "out_a = mk_output ''a.csv'' ''v'' [] True"

definition out_b :: OutputFileDefinition where
  "out_b = mk_output ''b.csv'' ''v'' [] True"

definition out_gas :: OutputFileDefinition where
  "out_gas = mk_output ''gas_high_resolution.csv'' ''Meterstand'' [] False"

definition out_high :: OutputFileDefinition where
  "out_high = mk_output ''high.csv'' ''v'' [type_is_high] False"

definition scenario_E :: "rat dataframe" where
  "scenario_E =
     \<lparr>columns = [''Datum'', ''v''],
      rows = [(0, [(''Datum'', parsed_date ''01-01-1960''), (''v'', Float 1)]),
              (1, [(''Datum'', parsed_date ''02-01-2020''), (''v'', Float 2)]),
              (2, [(''Datum'', parsed_date ''01-01-2020''), (''v'', Float 3)])]\<rparr>"


section \<open>recalculateData is the fold of the spec\<close>

text \<open>
  With distinct labels \<open>df.at[label, c]\<close> reads and writes the one row of that label.
\<close>

lemma filter_label_unique:
  assumes "distinct (map fst (pre @ (l, r) # post))"
  shows "filter (\<lambda>lr. fst lr = l) (pre @ (l, r) # post) = [(l, r)]"
proof -
  from assms have a: "l \<notin> fst ` set pre" and b: "l \<notin> fst ` set post" by auto
  have "filter (\<lambda>lr. fst lr = l) pre = []" using a by (auto simp: filter_empty_conv)
  moreover have "filter (\<lambda>lr. fst lr = l) post = []" using b by (auto simp: filter_empty_conv)
  ultimately show ?thesis by simp
qed

lemma at_get_unique:
  assumes "distinct (map fst (pre @ (l, r) # post))" and "c \<in> set cs"
  shows "at_get \<lparr>columns = cs, rows = pre @ (l, r) # post\<rparr> l c = Inr (cell_at r c)"
  using assms(2) by (simp add: at_get_def filter_label_unique[OF assms(1)] del: filter_append filter.simps)

lemma map_label_unique:
  assumes "distinct (map fst (pre @ (l, r) # post))"
  shows "map (\<lambda>lr. if fst lr = l then (fst lr, f (snd lr)) else lr) (pre @ (l, r) # post)
         = pre @ (l, f r) # post"
proof -
  from assms have a: "l \<notin> fst ` set pre" and b: "l \<notin> fst ` set post" by auto
  have "map (\<lambda>lr. if fst lr = l then (fst lr, f (snd lr)) else lr) pre = pre"
    using a by (intro map_idI) auto
  moreover have "map (\<lambda>lr. if fst lr = l then (fst lr, f (snd lr)) else lr) post = post"
    using b by (intro map_idI) auto
  ultimately show ?thesis by simp
qed

lemma at_set_unique:
  assumes "distinct (map fst (pre @ (l, r) # post))"
  shows "at_set \<lparr>columns = cs, rows = pre @ (l, r) # post\<rparr> l c v
         = \<lparr>columns = cs, rows = pre @ (l, AList.update c v r) # post\<rparr>"
  by (simp add: at_set_def map_label_unique[OF assms] del: map_append list.map)

lemma cell_at_update_same: "cell_at (AList.update c v r) c = v"
  by (simp add: cell_at_def update_conv')

lemma cell_at_update_other: "c' \<noteq> c \<Longrightarrow> cell_at (AList.update c v r) c' = cell_at r c'"
  by (simp add: cell_at_def update_conv')

text \<open>The arithmetic stays inside the numeric cells.\<close>

lemma is_numeric_cell_add: "is_numeric (cell_add lib a b)"
  by (cases a; cases b) (simp_all add: float_result_def split: option.splits)

lemma is_numeric_cell_round3: "is_numeric a \<Longrightarrow> is_numeric (cell_round3 lib a)"
  by (cases a) simp_all

lemma is_numeric_nan_to_zero: "is_numeric v \<Longrightarrow> is_numeric (nan_to_zero lib v)"
  by (simp add: nan_to_zero_def)

lemma math_isnan_numeric: "is_numeric v \<Longrightarrow> math_isnan v = Inr (v = NaN)"
  by (cases v) simp_all

text \<open>One pass of the loop body on a row that has a predecessor.\<close>

lemma recalc_loop_step:
  assumes d: "distinct (map fst (pre @ (p, pr) # (l, r) # post))"
    and c: "c \<in> set cs" and p: "0 \<le> p"
    and pt: "is_numeric (cell_at pr c)" and fl: "is_numeric (cell_at r c)"
  shows "recalc_loop lib c (l # ls) p \<lparr>columns = cs, rows = pre @ (p, pr) # (l, r) # post\<rparr>
       = recalc_loop lib c ls l \<lparr>columns = cs, rows = pre @ (p, pr) #
            (l, AList.update c
                  (cell_round3 lib (cell_add lib (nan_to_zero lib (cell_at r c)) (cell_at pr c))) r)
            # post\<rparr>"
proof -
  have d2: "\<And>r'. distinct (map fst ((pre @ [(p, pr)]) @ (l, r') # post))" using d by simp
  have d3: "\<And>r'. distinct (map fst (pre @ (p, pr) # (l, r') # post))" using d by simp
  have g1: "\<And>r'. at_get \<lparr>columns = cs, rows = pre @ (p, pr) # (l, r') # post\<rparr> l c = Inr (cell_at r' c)"
    using at_get_unique[OF d2 c] by simp
  have g2: "\<And>r'. at_get \<lparr>columns = cs, rows = pre @ (p, pr) # (l, r') # post\<rparr> p c = Inr (cell_at pr c)"
    using at_get_unique[OF d3 c] by simp
  have s1: "\<And>r' v. at_set \<lparr>columns = cs, rows = pre @ (p, pr) # (l, r') # post\<rparr> l c v
        = \<lparr>columns = cs, rows = pre @ (p, pr) # (l, AList.update c v r') # post\<rparr>"
    using at_set_unique[OF d2] by simp
  have n: "is_numeric (nan_to_zero lib (cell_at r c))"
    using fl by (rule is_numeric_nan_to_zero)
  have a: "py_add lib (nan_to_zero lib (cell_at r c)) (cell_at pr c)
           = Inr (cell_add lib (nan_to_zero lib (cell_at r c)) (cell_at pr c))"
    using n pt by (simp add: py_add_def)
  have b: "py_round3 lib (cell_add lib (nan_to_zero lib (cell_at r c)) (cell_at pr c))
           = Inr (cell_round3 lib (cell_add lib (nan_to_zero lib (cell_at r c)) (cell_at pr c)))"
    by (simp add: py_round3_def is_numeric_cell_add)
  show ?thesis
  proof (cases "cell_at r c = NaN")
    case True
    show ?thesis using p a b
      by (simp add: g1 g2 s1 True nan_to_zero_def cell_at_update_same)
  next
    case False
    have z: "nan_to_zero lib (cell_at r c) = cell_at r c"
      using False by (simp add: nan_to_zero_def)
    show ?thesis using p a b False
      by (simp add: g1 g2 s1 z math_isnan_numeric[OF fl])
  qed
qed

lemma recalc_loop_tail:
  "distinct (map fst (pre @ (p, pr) # post)) \<Longrightarrow> c \<in> set cs \<Longrightarrow> 0 \<le> p
   \<Longrightarrow> list_all (\<lambda>lr. 0 \<le> fst lr) post
   \<Longrightarrow> is_numeric (cell_at pr c) \<Longrightarrow> list_all is_numeric (column_cells c post)
   \<Longrightarrow> recalc_loop lib c (map fst post) p \<lparr>columns = cs, rows = pre @ (p, pr) # post\<rparr>
       = Inr \<lparr>columns = cs, rows = pre @ (p, pr) # recalc_rows lib c (cell_at pr c) post\<rparr>"
proof (induction post arbitrary: pre p pr)
  case Nil
  then show ?case by simp
next
  case (Cons lr post)
  obtain l r where lr: "lr = (l, r)" by (cases lr)
  let ?t = "cell_round3 lib (cell_add lib (nan_to_zero lib (cell_at r c)) (cell_at pr c))"
  let ?r = "AList.update c ?t r"
  have fl: "is_numeric (cell_at r c)" using Cons.prems(6) by (simp add: lr column_cells_def)
  have nt: "is_numeric ?t" by (simp add: is_numeric_cell_round3 is_numeric_cell_add)
  have step: "recalc_loop lib c (l # map fst post) p \<lparr>columns = cs, rows = pre @ (p, pr) # (l, r) # post\<rparr>
       = recalc_loop lib c (map fst post) l \<lparr>columns = cs, rows = pre @ (p, pr) # (l, ?r) # post\<rparr>"
    using recalc_loop_step[OF _ Cons.prems(2,3,5) fl] Cons.prems(1) by (simp add: lr)
  have "recalc_loop lib c (map fst post) l \<lparr>columns = cs, rows = (pre @ [(p, pr)]) @ (l, ?r) # post\<rparr>
       = Inr \<lparr>columns = cs, rows = (pre @ [(p, pr)]) @ (l, ?r) # recalc_rows lib c (cell_at ?r c) post\<rparr>"
    using Cons.prems nt by (intro Cons.IH) (simp_all add: lr cell_at_update_same column_cells_def)
  with step show ?case by (simp add: lr Let_def cell_at_update_same)
qed

lemma recalc_loop_first:
  assumes d: "distinct (map fst ((l, r) # post))" and c: "c \<in> set cs"
    and nn: "list_all (\<lambda>lr. 0 \<le> fst lr) ((l, r) # post)"
    and fl: "list_all is_numeric (column_cells c ((l, r) # post))"
  shows "recalc_loop lib c (map fst ((l, r) # post)) (-1) \<lparr>columns = cs, rows = (l, r) # post\<rparr>
       = Inr \<lparr>columns = cs,
              rows = (l, if cell_at r c = NaN then AList.update c (Float (float_zero lib)) r else r)
                     # recalc_rows lib c (nan_to_zero lib (cell_at r c)) post\<rparr>"
proof -
  let ?r = "if cell_at r c = NaN then AList.update c (Float (float_zero lib)) r else r"
  have d0: "distinct (map fst ([] @ (l, r) # post))" using d by simp
  have g: "at_get \<lparr>columns = cs, rows = (l, r) # post\<rparr> l c = Inr (cell_at r c)"
    using at_get_unique[OF d0 c] by simp
  have s: "\<And>v. at_set \<lparr>columns = cs, rows = (l, r) # post\<rparr> l c v
        = \<lparr>columns = cs, rows = (l, AList.update c v r) # post\<rparr>"
    using at_set_unique[OF d0] by simp
  have fr: "is_numeric (cell_at r c)" using fl by (simp add: column_cells_def)
  have pt: "cell_at ?r c = nan_to_zero lib (cell_at r c)"
    by (simp add: nan_to_zero_def cell_at_update_same)
  have first: "recalc_loop lib c (map fst ((l, r) # post)) (-1) \<lparr>columns = cs, rows = (l, r) # post\<rparr>
       = recalc_loop lib c (map fst post) l \<lparr>columns = cs, rows = [] @ (l, ?r) # post\<rparr>"
    by (simp add: g s math_isnan_numeric[OF fr])
  have "recalc_loop lib c (map fst post) l \<lparr>columns = cs, rows = [] @ (l, ?r) # post\<rparr>
       = Inr \<lparr>columns = cs, rows = [] @ (l, ?r) # recalc_rows lib c (cell_at ?r c) post\<rparr>"
    using d c nn fl fr by (intro recalc_loop_tail) (simp_all add: column_cells_def pt is_numeric_nan_to_zero)
  with first show ?thesis by (simp add: pt)
qed

lemma frames_store_of: "frames (store_of df) 0 = df"
  by (simp add: store_of_def new_frame_def empty_store_def)

lemma cell_add_commute:
  assumes "float_add_commutes lib"
  shows "cell_add lib a b = cell_add lib b a"
proof -
  have f: "float_add lib x y = float_add lib y x" for x y
    using assms by (simp add: float_add_commutes_def)
  have g: "float_result (float_add lib x y) = float_result (float_add lib y x)" for x y
    by (rule arg_cong[of _ _ float_result]) (rule f)
  show ?thesis
    by (cases a; cases b) (simp_all only: cell_add.simps g add.commute[of "_ :: int"])
qed

lemma column_cells_recalc_rows:
  assumes "float_add_commutes lib"
  shows "column_cells c (recalc_rows lib c t rs) = spec_accumulate lib t (column_cells c rs)"
proof (induction rs arbitrary: t)
  case Nil
  then show ?case by (simp add: column_cells_def)
next
  case (Cons lr rs)
  have "cell_add lib (nan_to_zero lib (cell_at (snd lr) c)) t
        = cell_add lib t (nan_to_zero lib (cell_at (snd lr) c))"
    using assms by (rule cell_add_commute)
  then show ?case using Cons.IH
    by (simp add: column_cells_def Let_def cell_at_update_same)
qed

lemma column_cells_recalc_all:
  assumes "float_add_commutes lib"
  shows "column_cells c (recalc_all lib c rs) = spec_recalculate lib (column_cells c rs)"
proof (cases rs)
  case Nil
  then show ?thesis by (simp add: recalc_all_def spec_recalculate_def column_cells_def)
next
  case (Cons lr post)
  have tl: "column_cells c (recalc_rows lib c t post) = spec_accumulate lib t (column_cells c post)" for t
    using assms by (rule column_cells_recalc_rows)
  have hd: "cell_at (if cell_at (snd lr) c = NaN then AList.update c (Float (float_zero lib)) (snd lr)
                     else snd lr) c
            = nan_to_zero lib (cell_at (snd lr) c)"
    by (simp add: nan_to_zero_def cell_at_update_same)
  have "column_cells c (recalc_all lib c (lr # post))
        = nan_to_zero lib (cell_at (snd lr) c)
          # column_cells c (recalc_rows lib c (nan_to_zero lib (cell_at (snd lr) c)) post)"
    using hd by (simp add: recalc_all_def column_cells_def)
  then show ?thesis by (simp add: Cons tl spec_recalculate_def) (simp add: column_cells_def)
qed

lemma recalc_loop_all:
  assumes "distinct (map fst (rows df))" and "c \<in> set (columns df)"
    and "list_all (\<lambda>lr. 0 \<le> fst lr) (rows df)"
    and "list_all is_numeric (column_cells c (rows df))"
  shows "recalc_loop lib c (map fst (rows df)) (-1) df = Inr (df\<lparr>rows := recalc_all lib c (rows df)\<rparr>)"
proof (cases "rows df")
  case Nil
  then show ?thesis by (simp add: recalc_all_def)
next
  case (Cons lr post)
  obtain l r where lr: "lr = (l, r)" by (cases lr)
  have df: "df = \<lparr>columns = columns df, rows = (l, r) # post\<rparr>"
    using Cons lr by (cases df) simp
  have "recalc_loop lib c (map fst ((l, r) # post)) (-1) \<lparr>columns = columns df, rows = (l, r) # post\<rparr>
        = Inr \<lparr>columns = columns df,
               rows = (l, if cell_at r c = NaN then AList.update c (Float (float_zero lib)) r else r)
                      # recalc_rows lib c (nan_to_zero lib (cell_at r c)) post\<rparr>"
    using assms Cons lr by (intro recalc_loop_first) simp_all
  moreover have "df\<lparr>rows := recalc_all lib c (rows df)\<rparr>
        = \<lparr>columns = columns df,
            rows = (l, if cell_at r c = NaN then AList.update c (Float (float_zero lib)) r else r)
                   # recalc_rows lib c (nan_to_zero lib (cell_at r c)) post\<rparr>"
    by (subst df) (simp add: recalc_all_def Cons lr)
  ultimately show ?thesis using df Cons lr by simp
qed

lemma recalculateData_result:
  assumes "distinct (map fst (rows (frames s r)))" and "c \<in> set (columns (frames s r))"
    and "list_all (\<lambda>lr. 0 \<le> fst lr) (rows (frames s r))"
    and "list_all is_numeric (column_cells c (rows (frames s r)))"
  shows "recalculateData lib s r c
         = Inr (s\<lparr>frames := (frames s)(r := (frames s r)\<lparr>rows := recalc_all lib c (rows (frames s r))\<rparr>)\<rparr>, r)"
  by (simp add: recalculateData_def recalc_loop_all[OF assms])

lemma plain_lib_commutes: "float_add_commutes plain_lib"
  by (simp add: float_add_commutes_def plain_lib_def literal_lib_def add.commute)

text \<open>
  C1. On a frame with distinct, non-negative index labels (what \<open>pd.concat\<close> with
  \<open>ignore_index\<close> gives and masking and sorting keep) and a numeric value column (float64
  with NaN, or int64), \<open>recalculateData\<close> returns, and the value column it leaves is the
  fold of the spec over the raw values in row order: the first value kept (0.0 for NaN)
  as the running total, then each row the previous total plus its own raw value (0.0 for
  NaN), rounded to three decimals after each addition. The sum and the rounding are the
  library's on both sides, whatever they compute; of the library the theorem asks only
  that float64 addition is commutative. Scenario A, the values 10, 5, NaN, gives 10.0,
  15.0, 15.0; the integer readings 10, 5 give 10, 15.
\<close>

theorem recalculateData_is_fold:
  assumes "float_add_commutes lib"
    and "distinct (map fst (rows (frames s r)))"
    and "list_all (\<lambda>lr. 0 \<le> fst lr) (rows (frames s r))"
    and "c \<in> set (columns (frames s r))"
    and "list_all is_numeric (column_cells c (rows (frames s r)))"
  shows "result_column c (recalculateData lib s r c)
         = Inr (spec_recalculate lib (column_cells c (rows (frames s r))))"
  using assms
  by (simp add: recalculateData_result result_column_def column_cells_recalc_all)

theorem recalculateData_is_fold_witness:
  "result_column ''v'' (recalculateData plain_lib (store_of scenario_A) 0 ''v'')
     = Inr [Float 10, Float 15, Float 15] \<and>
   result_column ''v'' (recalculateData plain_lib (store_of int_readings) 0 ''v'')
     = Inr [Int64 10, Int64 15]"
proof
  have cells: "column_cells ''v'' (rows scenario_A) = [Float 10, Float 5, NaN]"
    by (simp add: scenario_A_def column_cells_def cell_at_def)
  have "result_column ''v'' (recalculateData plain_lib (store_of scenario_A) 0 ''v'')
        = Inr (spec_recalculate plain_lib (column_cells ''v'' (rows (frames (store_of scenario_A) 0))))"
    by (rule recalculateData_is_fold)
      (simp_all add: plain_lib_commutes frames_store_of cells, simp_all add: scenario_A_def)
  also have "spec_recalculate plain_lib (column_cells ''v'' (rows (frames (store_of scenario_A) 0)))
        = [Float 10, Float 15, Float 15]"
    unfolding frames_store_of cells by code_simp
  finally show "result_column ''v'' (recalculateData plain_lib (store_of scenario_A) 0 ''v'')
     = Inr [Float 10, Float 15, Float 15]" .
next
  have cells: "column_cells ''v'' (rows int_readings) = [Int64 10, Int64 5]"
    by (simp add: int_readings_def column_cells_def cell_at_def)
  have "result_column ''v'' (recalculateData plain_lib (store_of int_readings) 0 ''v'')
        = Inr (spec_recalculate plain_lib (column_cells ''v'' (rows (frames (store_of int_readings) 0))))"
    by (rule recalculateData_is_fold)
      (simp_all add: plain_lib_commutes frames_store_of cells, simp_all add: int_readings_def)
  also have "spec_recalculate plain_lib (column_cells ''v'' (rows (frames (store_of int_readings) 0)))
        = [Int64 10, Int64 15]"
    unfolding frames_store_of cells by code_simp
  finally show "result_column ''v'' (recalculateData plain_lib (store_of int_readings) 0 ''v'')
     = Inr [Int64 10, Int64 15]" .
qed

section \<open>recalculateData touches one column only\<close>

lemma kept_except_refl: "kept_except c df df"
  by (simp add: kept_except_def)

lemma kept_except_trans: "kept_except c a b \<Longrightarrow> kept_except c b d \<Longrightarrow> kept_except c a d"
  by (simp add: kept_except_def)

lemma kept_except_at_set: "kept_except c df (at_set df l c v)"
  by (auto simp: kept_except_def at_set_def column_cells_def cell_at_update_other)

lemma recalc_loop_kept:
  "recalc_loop lib c ls p df = Inr df' \<Longrightarrow> kept_except c df df'"
proof (induction ls arbitrary: p df)
  case Nil
  then show ?case by (simp add: kept_except_refl)
next
  case (Cons l ls)
  let ?k = "kept_except c"
  let ?z = "Float (float_zero lib)"
  show ?case
  proof (cases "p > -1")
    case True
    with Cons.prems obtain b' rounded where
      "recalc_loop lib c ls l (at_set (if b' then at_set df l c ?z else df) l c rounded) = Inr df'"
      by (auto simp: Let_def split: sum.splits)
    then have "?k (at_set (if b' then at_set df l c ?z else df) l c rounded) df'"
      by (rule Cons.IH)
    moreover have "?k df (if b' then at_set df l c ?z else df)"
      by (simp add: kept_except_refl kept_except_at_set)
    ultimately show ?thesis
      by (blast intro: kept_except_trans kept_except_at_set)
  next
    case False
    with Cons.prems obtain b' where
      "recalc_loop lib c ls l (if b' then at_set df l c ?z else df) = Inr df'"
      by (auto simp: Let_def split: sum.splits)
    then have "?k (if b' then at_set df l c ?z else df) df'"
      by (rule Cons.IH)
    moreover have "?k df (if b' then at_set df l c ?z else df)"
      by (simp add: kept_except_refl kept_except_at_set)
    ultimately show ?thesis
      by (blast intro: kept_except_trans)
  qed
qed

text \<open>
  C10. Whenever \<open>recalculateData\<close> returns, it returns the reference it was given, and the
  frame behind it has the rows it had, in the same order under the same labels, the same
  columns, and in every column but the value column the same cells; every other frame of
  the store is as it was. On a frame with distinct, non-negative labels and a numeric
  value column it does return.
\<close>

theorem recalculateData_frame:
  "(recalculateData lib s r c = Inr (s', r') \<longrightarrow>
      r' = r \<and> length (rows (frames s' r)) = length (rows (frames s r)) \<and>
      map fst (rows (frames s' r)) = map fst (rows (frames s r)) \<and>
      columns (frames s' r) = columns (frames s r) \<and>
      (\<forall>c'. c' \<noteq> c \<longrightarrow> column_cells c' (rows (frames s' r)) = column_cells c' (rows (frames s r))) \<and>
      (\<forall>q. q \<noteq> r \<longrightarrow> frames s' q = frames s q))
   \<and> (distinct (map fst (rows (frames s r))) \<and> list_all (\<lambda>lr. 0 \<le> fst lr) (rows (frames s r)) \<and>
      c \<in> set (columns (frames s r)) \<and> list_all is_numeric (column_cells c (rows (frames s r)))
      \<longrightarrow> (\<exists>s'. recalculateData lib s r c = Inr (s', r)))"
proof (rule conjI; rule impI)
  assume run: "recalculateData lib s r c = Inr (s', r')"
  show "r' = r \<and> length (rows (frames s' r)) = length (rows (frames s r)) \<and>
      map fst (rows (frames s' r)) = map fst (rows (frames s r)) \<and>
      columns (frames s' r) = columns (frames s r) \<and>
      (\<forall>c'. c' \<noteq> c \<longrightarrow> column_cells c' (rows (frames s' r)) = column_cells c' (rows (frames s r))) \<and>
      (\<forall>q. q \<noteq> r \<longrightarrow> frames s' q = frames s q)"
  proof (cases "recalc_loop lib c (map fst (rows (frames s r))) (-1) (frames s r)")
    case (Inl e)
    with run show ?thesis by (simp add: recalculateData_def)
  next
    case (Inr df')
    with run have r': "r' = r" and f: "frames s' = (frames s)(r := df')"
      by (auto simp: recalculateData_def)
    have k: "kept_except c (frames s r) df'" using Inr by (rule recalc_loop_kept)
    have len: "length (rows df') = length (rows (frames s r))"
      using k by (metis kept_except_def length_map)
    show ?thesis using k len r' by (simp add: f kept_except_def)
  qed
next
  assume "distinct (map fst (rows (frames s r))) \<and> list_all (\<lambda>lr. 0 \<le> fst lr) (rows (frames s r)) \<and>
      c \<in> set (columns (frames s r)) \<and> list_all is_numeric (column_cells c (rows (frames s r)))"
  then show "\<exists>s'. recalculateData lib s r c = Inr (s', r)"
    by (simp add: recalculateData_result)
qed

theorem recalculateData_frame_witness:
  "\<exists>s'. recalculateData plain_lib (store_of scenario_A) 0 ''v'' = Inr (s', 0) \<and>
        map fst (rows (frames s' 0)) = [0, 1, 2] \<and>
        columns (frames s' 0) = [''Datum'', ''v''] \<and>
        column_cells ''Datum'' (rows (frames s' 0))
          = [Int64 1577836800, Int64 1577923200, Int64 1578009600]"
proof -
  let ?s = "store_of scenario_A"
  have fr: "frames ?s 0 = scenario_A" by (rule frames_store_of)
  have "distinct (map fst (rows (frames ?s 0))) \<and> list_all (\<lambda>lr. 0 \<le> fst lr) (rows (frames ?s 0)) \<and>
      ''v'' \<in> set (columns (frames ?s 0)) \<and> list_all is_numeric (column_cells ''v'' (rows (frames ?s 0)))"
    unfolding fr by (simp add: scenario_A_def column_cells_def cell_at_def)
  then obtain s' where run: "recalculateData plain_lib ?s 0 ''v'' = Inr (s', 0)"
    using recalculateData_frame[of plain_lib ?s 0 "''v''"] by blast
  have kept: "map fst (rows (frames s' 0)) = map fst (rows (frames ?s 0)) \<and>
      columns (frames s' 0) = columns (frames ?s 0) \<and>
      column_cells ''Datum'' (rows (frames s' 0)) = column_cells ''Datum'' (rows (frames ?s 0))"
    using recalculateData_frame[of plain_lib ?s 0 "''v''" s' 0] run by simp
  have "map fst (rows scenario_A) = [0, 1, 2]" "columns scenario_A = [''Datum'', ''v'']"
    "column_cells ''Datum'' (rows scenario_A) = [Int64 1577836800, Int64 1577923200, Int64 1578009600]"
    by (simp_all add: scenario_A_def column_cells_def cell_at_def)
  with kept run show ?thesis unfolding fr by auto
qed

section \<open>The first row is not rounded\<close>

text \<open>
  C2. The comments of \<open>recalculateData\<close> promise a value column that increases, and the
  claim holds of that promise; the code breaks it. The first value is kept as it is, the
  later ones are rounded: with the raw values 0.0004 and 0.0 the second stored value is
  \<open>round(0.0 + 0.0004, 3) = 0.0\<close>, below the first, and likewise with 0.000244140625 and
  0.0, where every float64 step is exact. Both columns hold no negative value.
\<close>

theorem recalculateData_first_row_unrounded:
  "column_cells ''v'' (rows (frames (store_of small_first) 0)) = [Float (4 / 10000), Float 0] \<and>
   list_all nonneg_or_nan [Float (4 / 10000), Float 0] \<and>
   result_column ''v'' (recalculateData plain_lib (store_of small_first) 0 ''v'')
     = Inr [Float (4 / 10000), Float 0] \<and>
   \<not> sorted (map float_value [Float (4 / 10000), Float 0]) \<and>
   column_cells ''v'' (rows (frames (store_of dyadic_first) 0)) = [Float (1 / 4096), Float 0] \<and>
   list_all nonneg_or_nan [Float (1 / 4096), Float 0] \<and>
   result_column ''v'' (recalculateData plain_lib (store_of dyadic_first) 0 ''v'')
     = Inr [Float (1 / 4096), Float 0] \<and>
   \<not> sorted (map float_value [Float (1 / 4096), Float 0])"
  by code_simp

section \<open>filterData keeps the rows that pass every filter\<close>

lemma zip_mask: "map fst (filter snd (zip xs (map P xs))) = filter P xs"
  by (induction xs) simp_all

lemma getitem_mask_filter:
  "getitem_mask df (map P (rows df)) = df\<lparr>rows := filter P (rows df)\<rparr>"
  by (simp add: getitem_mask_def zip_mask)

lemma filterData_step:
  assumes "f_column f \<in> set (columns (frames s r))" and "re_compile lib (f_value f) \<noteq> None"
  shows "filterData lib s r (f # fs)
         = filterData lib (fst (new_frame s ((frames s r)\<lparr>rows := filter (filter_test lib f) (rows (frames s r))\<rparr>)))
             (next_ref s) fs"
proof -
  from assms(2) obtain search where c: "re_compile lib (f_value f) = Some search" by auto
  let ?col = "map (\<lambda>lr. cell_at (snd lr) (f_column f)) (rows (frames s r))"
  have t: "filter_test lib f = (\<lambda>lr. if f_equal f then search (astype_str lib (cell_at (snd lr) (f_column f)))
           else \<not> search (astype_str lib (cell_at (snd lr) (f_column f))))"
    by (rule ext) (simp add: filter_test_def c)
  have m: "(if \<not> f_equal f then map Not (map (\<lambda>c. search (astype_str lib c)) ?col)
            else map (\<lambda>c. search (astype_str lib c)) ?col)
           = map (filter_test lib f) (rows (frames s r))"
    by (simp add: t comp_def)
  have "getitem_column (frames s r) (f_column f) = Inr ?col"
    using assms(1) by (simp add: getitem_column_def)
  then show ?thesis
    by (simp add: c Let_def m getitem_mask_filter new_frame_def del: map_map)
qed

lemma filterData_frame:
  "filters_ok lib (frames s r) fs \<Longrightarrow>
   \<exists>s' r'. filterData lib s r fs = Inr (s', r') \<and>
     frames s' r' = (frames s r)\<lparr>rows := filter (passes lib fs) (rows (frames s r))\<rparr> \<and>
     (\<forall>q < next_ref s. q \<noteq> r' \<longrightarrow> frames s' q = frames s q) \<and> next_ref s \<le> next_ref s' \<and>
     (if fs = [] then s' = s \<and> r' = r else next_ref s \<le> r' \<and> r' < next_ref s')"
proof (induction fs arbitrary: s r)
  case Nil
  then show ?case by (simp add: passes_def)
next
  case (Cons f fs)
  let ?df = "(frames s r)\<lparr>rows := filter (filter_test lib f) (rows (frames s r))\<rparr>"
  let ?s1 = "fst (new_frame s ?df)"
  have ok: "f_column f \<in> set (columns (frames s r))" "re_compile lib (f_value f) \<noteq> None"
    using Cons.prems by (simp_all add: filters_ok_def)
  have step: "filterData lib s r (f # fs) = filterData lib ?s1 (next_ref s) fs"
    using ok by (rule filterData_step)
  have f1: "frames ?s1 (next_ref s) = ?df" and n1: "next_ref ?s1 = Suc (next_ref s)"
    and old: "\<And>q. q < next_ref s \<Longrightarrow> frames ?s1 q = frames s q"
    by (simp_all add: new_frame_def)
  have "filters_ok lib (frames ?s1 (next_ref s)) fs"
    using Cons.prems by (simp add: f1 filters_ok_def)
  from Cons.IH[OF this] obtain s' r' where
    run: "filterData lib ?s1 (next_ref s) fs = Inr (s', r')"
    and fr: "frames s' r' = (frames ?s1 (next_ref s))\<lparr>rows := filter (passes lib fs) (rows (frames ?s1 (next_ref s)))\<rparr>"
    and keep: "\<forall>q < next_ref ?s1. q \<noteq> r' \<longrightarrow> frames s' q = frames ?s1 q"
    and nx: "next_ref ?s1 \<le> next_ref s'"
    and rf: "if fs = [] then s' = ?s1 \<and> r' = next_ref s else next_ref ?s1 \<le> r' \<and> r' < next_ref s'"
    by blast
  have p: "filter (passes lib fs) (filter (filter_test lib f) xs) = filter (passes lib (f # fs)) xs" for xs
    by (induction xs) (auto simp: passes_def)
  have a: "frames s' r' = (frames s r)\<lparr>rows := filter (passes lib (f # fs)) (rows (frames s r))\<rparr>"
    by (simp add: fr f1 p del: filter_filter)
  have b: "\<forall>q < next_ref s. q \<noteq> r' \<longrightarrow> frames s' q = frames s q"
    using keep old n1 by auto
  have c: "next_ref s \<le> r' \<and> r' < next_ref s'"
    using rf n1 nx by (auto split: if_splits)
  have d: "next_ref s \<le> next_ref s'" using nx n1 by simp
  show ?case using step run a b c d by simp
qed

lemma filterData_result_frame:
  assumes "filters_ok lib (frames s r) fs"
  shows "result_frame (filterData lib s r fs)
         = Inr ((frames s r)\<lparr>rows := filter (passes lib fs) (rows (frames s r))\<rparr>)"
  using filterData_frame[OF assms] by (auto simp: result_frame_def)

lemma scenario_B_ok: "filters_ok (literal_lib fr tr srt) (frames (store_of scenario_B) 0) [type_is_high]"
  by (simp add: filters_ok_def frames_store_of scenario_B_def type_is_high_def literal_lib_def)

lemma scenario_B_rows:
  "filter (passes (literal_lib fr tr srt) [type_is_high]) (rows scenario_B)
   = [(0, [(''Datum'', Int64 1577836800), (''Type'', Str ''High''), (''v'', Float 1)]),
      (2, [(''Datum'', Int64 1578009600), (''Type'', Str ''High''), (''v'', Float 3)])]"
  by (simp add: passes_def filter_test_def literal_lib_def scenario_B_def type_is_high_def cell_at_def)

text \<open>
  C5. With every filter's column in the frame (and every pattern one that compiles),
  \<open>filterData\<close> returns a frame with the same columns and exactly the rows that pass the
  test of every filter, in their input order; with no filter it is the frame it was
  given. The test is a regular-expression search in the string form of the cell,
  inverted for a filter that is not inclusive. Scenario B: the inclusive filter on
  \<open>Type\<close> with pattern \<open>High\<close> keeps rows 1 and 3 of High, Low, High.
\<close>

theorem filterData_retains:
  assumes "filters_ok lib (frames s r) fs"
  shows "result_frame (filterData lib s r fs)
           = Inr ((frames s r)\<lparr>rows := filter (passes lib fs) (rows (frames s r))\<rparr>) \<and>
         result_frame (filterData lib s r []) = Inr (frames s r)"
  using filterData_result_frame[OF assms] by (simp add: result_frame_def)

theorem filterData_retains_witness:
  "\<forall>fr tr srt.
     result_frame (filterData (literal_lib fr tr srt) (store_of scenario_B) 0 [type_is_high])
     = Inr \<lparr>columns = [''Datum'', ''Type'', ''v''],
            rows = [(0, [(''Datum'', Int64 1577836800), (''Type'', Str ''High''), (''v'', Float 1)]),
                    (2, [(''Datum'', Int64 1578009600), (''Type'', Str ''High''), (''v'', Float 3)])]\<rparr>"
proof (intro allI)
  fix fr tr srt
  have "result_frame (filterData (literal_lib fr tr srt) (store_of scenario_B) 0 [type_is_high])
        = Inr ((frames (store_of scenario_B) 0)\<lparr>rows :=
             filter (passes (literal_lib fr tr srt) [type_is_high]) (rows (frames (store_of scenario_B) 0))\<rparr>)"
    using filterData_retains[OF scenario_B_ok] by simp
  then show "result_frame (filterData (literal_lib fr tr srt) (store_of scenario_B) 0 [type_is_high])
     = Inr \<lparr>columns = [''Datum'', ''Type'', ''v''],
            rows = [(0, [(''Datum'', Int64 1577836800), (''Type'', Str ''High''), (''v'', Float 1)]),
                    (2, [(''Datum'', Int64 1578009600), (''Type'', Str ''High''), (''v'', Float 3)])]\<rparr>"
    unfolding frames_store_of scenario_B_rows by (simp add: scenario_B_def)
qed

lemma length_filter_mono:
  "(\<And>x. P x \<Longrightarrow> Q x) \<Longrightarrow> length (filter P xs) \<le> length (filter Q xs)"
  by (induction xs) auto

lemma list_all_butlast: "list_all P xs \<Longrightarrow> list_all P (butlast xs)"
  by (auto simp: list_all_iff dest: in_set_butlastD)

text \<open>
  C6. With every filter's column in the frame (and every pattern one that compiles), the
  filters without the last one return a frame too, and the full list returns at most as
  many rows as they do.
\<close>

theorem filterData_narrows:
  assumes "filters_ok lib (frames s r) fs"
  shows "\<exists>df1 df2. result_frame (filterData lib s r fs) = Inr df1 \<and>
           result_frame (filterData lib s r (butlast fs)) = Inr df2 \<and>
           length (rows df1) \<le> length (rows df2)"
proof -
  have ok': "filters_ok lib (frames s r) (butlast fs)"
    using assms unfolding filters_ok_def by (rule list_all_butlast)
  have "passes lib fs lr \<Longrightarrow> passes lib (butlast fs) lr" for lr
    unfolding passes_def by (rule list_all_butlast)
  then have "length (filter (passes lib fs) (rows (frames s r)))
             \<le> length (filter (passes lib (butlast fs)) (rows (frames s r)))"
    by (rule length_filter_mono)
  then show ?thesis
    using filterData_result_frame[OF assms] filterData_result_frame[OF ok'] by simp
qed

theorem filterData_narrows_witness:
  "\<forall>fr tr srt. \<exists>df1 df2.
     result_frame (filterData (literal_lib fr tr srt) (store_of scenario_B) 0 [type_is_high]) = Inr df1 \<and>
     result_frame (filterData (literal_lib fr tr srt) (store_of scenario_B) 0 []) = Inr df2 \<and>
     length (rows df1) \<le> length (rows df2)"
  using filterData_narrows[OF scenario_B_ok] by simp

section \<open>The base frame across the output definitions\<close>

lemma filterData_keeps:
  "filterData lib s r fs = Inr (s', r') \<Longrightarrow>
     next_ref s \<le> next_ref s' \<and> (\<forall>q < next_ref s. frames s' q = frames s q) \<and>
     columns (frames s' r') = columns (frames s r)"
proof (induction fs arbitrary: s r)
  case Nil
  then show ?case by simp
next
  case (Cons f fs)
  from Cons.prems obtain col search where
    col: "getitem_column (frames s r) (f_column f) = Inr col"
    and c: "re_compile lib (f_value f) = Some search"
    by (auto split: sum.splits option.splits)
  define series where "series = (if \<not> f_equal f then map Not (map (\<lambda>c. search (astype_str lib c)) col)
                                 else map (\<lambda>c. search (astype_str lib c)) col)"
  define s1 where "s1 = fst (new_frame s (getitem_mask (frames s r) series))"
  have run: "filterData lib s1 (next_ref s) fs = Inr (s', r')"
    using Cons.prems by (simp add: col c Let_def s1_def series_def new_frame_def)
  have n1: "next_ref s1 = Suc (next_ref s)"
    and old: "\<And>q. q < next_ref s \<Longrightarrow> frames s1 q = frames s q"
    and cs: "columns (frames s1 (next_ref s)) = columns (frames s r)"
    by (simp_all add: s1_def new_frame_def getitem_mask_def)
  from Cons.IH[OF run] have "next_ref s1 \<le> next_ref s'"
    "\<forall>q < next_ref s1. frames s' q = frames s1 q"
    "columns (frames s' r') = columns (frames s1 (next_ref s))"
    by simp_all
  then show ?case using n1 old cs by auto
qed

lemma recalculateData_keeps:
  assumes "recalculateData lib s r c = Inr (s', r')"
  shows "r' = r \<and> next_ref s' = next_ref s \<and> columns (frames s' r) = columns (frames s r) \<and>
         (\<forall>q. q \<noteq> r \<longrightarrow> frames s' q = frames s q)"
proof (cases "recalc_loop lib c (map fst (rows (frames s r))) (-1) (frames s r)")
  case (Inl e)
  with assms show ?thesis by (simp add: recalculateData_def)
next
  case (Inr df')
  with assms have r': "r' = r" and f: "frames s' = (frames s)(r := df')"
    and n: "next_ref s' = next_ref s"
    by (auto simp: recalculateData_def)
  have "kept_except c (frames s r) df'" using Inr by (rule recalc_loop_kept)
  then show ?thesis using r' n by (simp add: f kept_except_def)
qed

lemma generateImportDataFile_keeps:
  assumes run: "generateImportDataFile lib s df n c fs rc = Inr (s', w)" and df: "df < next_ref s"
  shows "df < next_ref s' \<and> columns (frames s' df) = columns (frames s df)"
proof (cases "c \<in> set (columns (frames s df))")
  case False
  with run df show ?thesis by (simp add: generateImportDataFile_def)
next
  case True
  from run True obtain s1 f where fd: "filterData lib s df fs = Inr (s1, f)"
    by (auto simp: generateImportDataFile_def split: sum.splits)
  from run True fd obtain s2 f2 where
    rc: "(if rc then recalculateData lib s1 f c else Inr (s1, f)) = Inr (s2, f2)"
    by (auto simp: generateImportDataFile_def split: sum.splits)
  have s': "s' = fst (new_frame s2 (filter_items (frames s2 f2) [inputFileDateColumnName, c]))"
    using run True fd rc by (simp add: generateImportDataFile_def Let_def)
  have k1: "next_ref s \<le> next_ref s1" "frames s1 df = frames s df"
    using filterData_keeps[OF fd] df by simp_all
  have k2: "next_ref s2 = next_ref s1 \<and> columns (frames s2 df) = columns (frames s1 df)"
  proof (cases rc)
    case True
    with rc have "recalculateData lib s1 f c = Inr (s2, f2)" by simp
    from recalculateData_keeps[OF this] show ?thesis by (cases "df = f") auto
  next
    case False
    with rc show ?thesis by simp
  qed
  have k3: "next_ref s' = Suc (next_ref s2)" "\<And>q. q < next_ref s2 \<Longrightarrow> frames s' q = frames s2 q"
    by (simp_all add: s' new_frame_def)
  show ?thesis using df k1 k2 k3 by simp
qed

lemma output_loop_skip:
  "df < next_ref s \<Longrightarrow> valueColumnName od \<notin> set (columns (frames s df)) \<Longrightarrow>
   output_loop lib s df (pre @ od # post) written = output_loop lib s df (pre @ post) written"
proof (induction pre arbitrary: s written)
  case Nil
  then show ?case by (simp add: generateImportDataFile_def)
next
  case (Cons o1 pre)
  show ?case
  proof (cases "generateImportDataFile lib s df (outputFileName o1) (valueColumnName o1)
                  (dataFilters o1) (recalculate o1)")
    case (Inl e)
    then show ?thesis by simp
  next
    case (Inr sw)
    obtain s' w where sw: "sw = (s', w)" by (cases sw)
    from generateImportDataFile_keeps[OF Inr[unfolded sw] Cons.prems(1)]
    have "df < next_ref s'" "valueColumnName od \<notin> set (columns (frames s' df))"
      using Cons.prems(2) by simp_all
    from Cons.IH[OF this] show ?thesis by (simp add: Inr sw)
  qed
qed

lemma store_of_two_rows:
  "0 < next_ref (store_of two_rows)" "columns (frames (store_of two_rows) 0) = [''Datum'', ''v'']"
  by (simp_all add: store_of_def new_frame_def empty_store_def two_rows_def)

lemma output_loop_out_a:
  "snd (output_loop plain_lib (store_of two_rows) 0 [out_a] [])
   = ([(''a.csv'', [[Int64 1577836800, Float 10], [Int64 1577923200, Float 15]])], None)"
  by code_simp

text \<open>
  C3. The claim holds of the spec's design and fails on the code: with no filter
  \<open>filterData\<close> returns the base frame itself and \<open>recalculateData\<close> writes the running
  totals into it. Two output definitions over the same column with \<open>recalculate\<close> set: the
  base values 10, 5 are 10, 15 after the first output, and the second file holds 10, 25.
\<close>

theorem recalculate_mutates_base:
  "column_cells ''v'' (rows (frames (store_of two_rows) 0)) = [Float 10, Float 5] \<and>
   column_cells ''v'' (rows (frames (fst (output_loop plain_lib (store_of two_rows) 0 [out_a] [])) 0))
     = [Float 10, Float 15] \<and>
   snd (output_loop plain_lib (store_of two_rows) 0 [out_a, out_b] [])
     = ([(''a.csv'', [[Int64 1577836800, Float 10], [Int64 1577923200, Float 15]]),
         (''b.csv'', [[Int64 1577836800, Float 10], [Int64 1577923200, Float 25]])], None)"
  by code_simp

text \<open>
  C7. An output definition whose value column is not a column of the frame returns
  without an exception, writes no file and leaves the store as it was, and the loop over
  the output definitions runs as if that definition were not in the list.
\<close>

theorem missing_value_column_skipped:
  assumes "dataFrame < next_ref s"
    and "valueColumnName od \<notin> set (columns (frames s dataFrame))"
  shows "generateImportDataFile lib s dataFrame (outputFileName od) (valueColumnName od)
           (dataFilters od) (recalculate od) = Inr (s, None) \<and>
         output_loop lib s dataFrame (pre @ od # post) written
           = output_loop lib s dataFrame (pre @ post) written"
  using assms output_loop_skip[OF assms] by (simp add: generateImportDataFile_def)

theorem missing_value_column_skipped_witness:
  "generateImportDataFile plain_lib (store_of two_rows) 0 (outputFileName out_gas)
      (valueColumnName out_gas) (dataFilters out_gas) (recalculate out_gas)
     = Inr (store_of two_rows, None) \<and>
   snd (output_loop plain_lib (store_of two_rows) 0 [out_gas, out_a] [])
     = ([(''a.csv'', [[Int64 1577836800, Float 10], [Int64 1577923200, Float 15]])], None)"
proof -
  have a: "0 < next_ref (store_of two_rows)" by (rule store_of_two_rows)
  have b: "valueColumnName out_gas \<notin> set (columns (frames (store_of two_rows) 0))"
    by (simp add: store_of_two_rows out_gas_def mk_output_def)
  from missing_value_column_skipped[OF a b, of plain_lib "[]" "[out_a]" "[]"]
  show ?thesis by (simp add: output_loop_out_a del: output_loop.simps)
qed

lemma filterData_missing_column:
  "list_all (\<lambda>f. re_compile lib (f_value f) \<noteq> None) fs \<Longrightarrow>
   \<not> list_all (\<lambda>f. f_column f \<in> set (columns (frames s r))) fs \<Longrightarrow>
   filterData lib s r fs = Inl KeyError"
proof (induction fs arbitrary: s r)
  case Nil
  then show ?case by simp
next
  case (Cons f fs)
  show ?case
  proof (cases "f_column f \<in> set (columns (frames s r))")
    case False
    then show ?thesis by (simp add: getitem_column_def)
  next
    case True
    let ?s1 = "fst (new_frame s ((frames s r)\<lparr>rows := filter (filter_test lib f) (rows (frames s r))\<rparr>))"
    have c: "re_compile lib (f_value f) \<noteq> None" using Cons.prems(1) by simp
    have step: "filterData lib s r (f # fs) = filterData lib ?s1 (next_ref s) fs"
      using True c by (rule filterData_step)
    have cs: "columns (frames ?s1 (next_ref s)) = columns (frames s r)"
      by (simp add: new_frame_def)
    have "filterData lib ?s1 (next_ref s) fs = Inl KeyError"
      using Cons.prems True by (intro Cons.IH) (simp_all add: cs)
    with step show ?thesis by simp
  qed
qed

text \<open>
  C9, as stated, fails in its second half: nothing catches the \<open>KeyError\<close> of a filter on
  a missing column. The first output definition filters on \<open>Type\<close>, which the frame does
  not have; the loop ends with the exception and the second definition, which alone
  produces its file, is never reached.
\<close>

theorem missing_filter_column_not_caught:
  "snd (output_loop plain_lib (store_of two_rows) 0 [out_high, out_a] []) = ([], Some KeyError) \<and>
   snd (output_loop plain_lib (store_of two_rows) 0 [out_a] [])
     = ([(''a.csv'', [[Int64 1577836800, Float 10], [Int64 1577923200, Float 15]])], None)"
  by code_simp

text \<open>
  C9, amended. When the value column exists, the patterns compile and some filter's column
  is not a column of the frame, \<open>filterData\<close> raises \<open>KeyError\<close>, and the exception leaves
  \<open>generateImportDataFile\<close> and ends the loop over the output definitions: the files
  written before stay, the remaining definitions are not processed.
\<close>

theorem missing_filter_column_aborts:
  assumes "valueColumnName od \<in> set (columns (frames s dataFrame))"
    and "list_all (\<lambda>f. re_compile lib (f_value f) \<noteq> None) (dataFilters od)"
    and "\<not> list_all (\<lambda>f. f_column f \<in> set (columns (frames s dataFrame))) (dataFilters od)"
  shows "filterData lib s dataFrame (dataFilters od) = Inl KeyError \<and>
         generateImportDataFile lib s dataFrame (outputFileName od) (valueColumnName od)
           (dataFilters od) (recalculate od) = Inl KeyError \<and>
         output_loop lib s dataFrame (od # rest) written = (s, written, Some KeyError)"
  using assms(1) filterData_missing_column[OF assms(2,3)]
  by (simp add: generateImportDataFile_def)

theorem missing_filter_column_aborts_witness:
  "filterData plain_lib (store_of two_rows) 0 (dataFilters out_high) = Inl KeyError \<and>
   generateImportDataFile plain_lib (store_of two_rows) 0 (outputFileName out_high)
     (valueColumnName out_high) (dataFilters out_high) (recalculate out_high) = Inl KeyError \<and>
   output_loop plain_lib (store_of two_rows) 0 [out_high, out_a] []
     = (store_of two_rows, [], Some KeyError)"
proof -
  have a: "valueColumnName out_high \<in> set (columns (frames (store_of two_rows) 0))"
    by (simp add: store_of_two_rows out_high_def mk_output_def)
  have b: "list_all (\<lambda>f. re_compile plain_lib (f_value f) \<noteq> None) (dataFilters out_high)"
    by (simp add: out_high_def mk_output_def plain_lib_def literal_lib_def)
  have c: "\<not> list_all (\<lambda>f. f_column f \<in> set (columns (frames (store_of two_rows) 0))) (dataFilters out_high)"
    by (simp add: store_of_two_rows out_high_def mk_output_def type_is_high_def)
  from missing_filter_column_aborts[OF a b c, of "[out_a]" "[]"] show ?thesis .
qed

section \<open>prepareData: the sanity bound and the order of the rows\<close>

lemma strptime_bounds:
  "strptime_dmy ''01-01-1970'' = Some 0"
  "strptime_dmy ''31-12-2099'' = Some 4102358400000000000"
  by code_simp+

lemma civil_bounds:
  "days_from_civil 1970 1 1 * 86400000000000 = 0"
  "days_from_civil 2099 12 31 * 86400000000000 = 4102358400000000000"
  by code_simp+

lemma within_midnight_bounds_alt:
  "within_midnight_bounds lr =
     (case cell_at (snd lr) inputFileDateColumnName of
        Timestamp t \<Rightarrow> 0 \<le> t \<and> t \<le> 4102358400000000000 | _ \<Rightarrow> False)"
  unfolding within_midnight_bounds_def civil_bounds ..

lemma sequence_date_mask:
  "list_all is_datetime (column_cells inputFileDateColumnName rs) \<Longrightarrow>
   sequence (map (\<lambda>lr. date_in_bounds 0 4102358400000000000 (cell_at (snd lr) inputFileDateColumnName)) rs)
   = Inr (map within_midnight_bounds rs)"
proof (induction rs)
  case Nil
  then show ?case by simp
next
  case (Cons lr rs)
  then have d: "is_datetime (cell_at (snd lr) inputFileDateColumnName)"
    and rest: "sequence (map (\<lambda>lr. date_in_bounds 0 4102358400000000000 (cell_at (snd lr) inputFileDateColumnName)) rs)
               = Inr (map within_midnight_bounds rs)"
    by (simp_all add: column_cells_def)
  from d have "date_in_bounds 0 4102358400000000000 (cell_at (snd lr) inputFileDateColumnName)
               = Inr (within_midnight_bounds lr)"
    by (cases "cell_at (snd lr) inputFileDateColumnName") (simp_all add: within_midnight_bounds_alt)
  with rest show ?case by simp
qed

lemma prepareData_rows:
  assumes "inputFileDateColumnName \<in> set (columns df)"
    and "list_all is_datetime (column_cells inputFileDateColumnName (rows df))"
  shows "prepareData lib df
         = Inr (df\<lparr>rows := map (set_date lib) (sort_rows lib (filter within_midnight_bounds (rows df)))\<rparr>)"
  using assms(1)
  by (simp add: prepareData_def strptime_bounds sequence_date_mask[OF assms(2)]
        getitem_mask_filter sort_rows_def Let_def)

lemma mset_sort_rows:
  assumes "argsort_ok (argsort lib)"
  shows "mset (sort_rows lib kept) = mset kept"
proof -
  let ?ks = "map (\<lambda>lr. timestamp_key (snd lr)) kept"
  have "mset (argsort lib ?ks) = mset [0..<length kept]"
    using assms by (simp add: argsort_ok_def)
  then have "mset (map (\<lambda>i. kept ! i) (argsort lib ?ks)) = mset (map (\<lambda>i. kept ! i) [0..<length kept])"
    by (metis mset_map)
  then show ?thesis by (simp add: sort_rows_def map_nth)
qed

lemma sorted_sort_rows:
  assumes "argsort_ok (argsort lib)"
  shows "sorted (map (\<lambda>lr. timestamp_key (snd lr)) (sort_rows lib kept))"
proof -
  let ?ks = "map (\<lambda>lr. timestamp_key (snd lr)) kept"
  have p: "mset (argsort lib ?ks) = mset [0..<length kept]"
    and s: "sorted (map (\<lambda>i. ?ks ! i) (argsort lib ?ks))"
    using assms by (simp_all add: argsort_ok_def)
  have "set (argsort lib ?ks) = set [0..<length kept]" using p by (metis set_mset_mset)
  then have "\<forall>i \<in> set (argsort lib ?ks). i < length kept" by simp
  then have "map (\<lambda>lr. timestamp_key (snd lr)) (sort_rows lib kept) = map (\<lambda>i. ?ks ! i) (argsort lib ?ks)"
    by (simp add: sort_rows_def)
  with s show ?thesis by simp
qed



lemma fst_set_date: "map fst (map (set_date lib) rs) = map fst rs"
  by (simp add: set_date_def comp_def)






text \<open>
  The rows leave \<open>prepareData\<close> in ascending order of their date, for every \<open>argsort\<close> that
  sorts and every conversion to seconds that is monotone. Which of two rows of equal
  date comes first is the library's choice: \<open>sort_values\<close> is called with its default
  kind, quicksort, and the order numpy's quicksort gives to ties is not fixed by the
  script.
\<close>

lemma set_date_within:
  assumes "within_midnight_bounds lr"
  shows "cell_at (snd (set_date lib lr)) inputFileDateColumnName
         = Int64 (epoch_seconds lib (timestamp_key (snd lr)))"
  using assms
  by (cases "cell_at (snd lr) inputFileDateColumnName")
     (simp_all add: within_midnight_bounds_alt set_date_def cell_at_update_same timestamp_key_def)

lemma sort_rows_within:
  assumes "argsort_ok (argsort lib)"
  shows "list_all within_midnight_bounds (sort_rows lib (filter within_midnight_bounds rs))"
proof -
  have "set (sort_rows lib (filter within_midnight_bounds rs)) = set (filter within_midnight_bounds rs)"
    using mset_sort_rows[OF assms] by (metis set_mset_mset)
  then show ?thesis by (simp add: list_all_iff)
qed

lemma prepareData_ascending:
  assumes "argsort_ok (argsort lib)" and "mono (epoch_seconds lib)"
    and "inputFileDateColumnName \<in> set (columns df)"
    and "list_all is_datetime (column_cells inputFileDateColumnName (rows df))"
  shows "\<exists>df'. prepareData lib df = Inr df' \<and> sorted (map epoch_key (rows df')) \<and>
           column_cells inputFileDateColumnName (rows df') = map Int64 (map epoch_key (rows df'))"
proof -
  let ?rs = "sort_rows lib (filter within_midnight_bounds (rows df))"
  have run: "prepareData lib df = Inr (df\<lparr>rows := map (set_date lib) ?rs\<rparr>)"
    using assms(3,4) by (rule prepareData_rows)
  have w: "list_all within_midnight_bounds ?rs" using assms(1) by (rule sort_rows_within)
  have e: "map epoch_key (map (set_date lib) ?rs)
           = map (epoch_seconds lib) (map (\<lambda>lr. timestamp_key (snd lr)) ?rs)"
    using w by (auto simp: epoch_key_def set_date_within list_all_iff)
  have "sorted (map (epoch_seconds lib) (map (\<lambda>lr. timestamp_key (snd lr)) ?rs))"
    using sorted_sort_rows[OF assms(1)] assms(2) by (intro sorted_map_mono) (auto intro: mono_on_subset)
  then have "sorted (map epoch_key (map (set_date lib) ?rs))" by (simp only: e)
  moreover have "column_cells inputFileDateColumnName (map (set_date lib) ?rs)
                 = map Int64 (map epoch_key (map (set_date lib) ?rs))"
    using w by (auto simp: column_cells_def epoch_key_def set_date_within list_all_iff)
  ultimately show ?thesis using run by simp
qed

text \<open>
  A whole run on the table of scenario E with the output definitions of the template
  setup: none of their value columns is in the table, no file is written, no exception
  is raised.
\<close>

lemma shipped_outputs_all_skipped:
  "generateImportDataFiles plain_lib scenario_E outputFiles = ([], None)"
  by code_simp

text \<open>
  The frames \<open>recalculateData\<close> meets in a run have distinct, non-negative labels: the
  concatenated table is labelled 0, 1, 2, ... (\<open>ignore_index = True\<close>), and \<open>prepareData\<close>
  and \<open>filterData\<close> keep a selection of the rows under their labels.
\<close>

lemma prepareData_labels:
  assumes "argsort_ok (argsort lib)"
    and "inputFileDateColumnName \<in> set (columns df)"
    and "list_all is_datetime (column_cells inputFileDateColumnName (rows df))"
    and "distinct (map fst (rows df))" and "list_all (\<lambda>lr. 0 \<le> fst lr) (rows df)"
  shows "\<exists>df'. prepareData lib df = Inr df' \<and> distinct (map fst (rows df')) \<and>
           list_all (\<lambda>lr. 0 \<le> fst lr) (rows df')"
proof -
  let ?kept = "filter within_midnight_bounds (rows df)"
  let ?rs = "sort_rows lib ?kept"
  have run: "prepareData lib df = Inr (df\<lparr>rows := map (set_date lib) ?rs\<rparr>)"
    using assms(2,3) by (rule prepareData_rows)
  have m: "mset ?rs = mset ?kept" using assms(1) by (rule mset_sort_rows)
  then have "mset (map fst ?rs) = mset (map fst ?kept)" by (metis mset_map)
  moreover have "distinct (map fst ?kept)" using assms(4) by (rule distinct_map_filter)
  ultimately have d: "distinct (map fst ?rs)" by (metis mset_eq_imp_distinct_iff)
  have "set ?rs = set ?kept" using m by (metis set_mset_mset)
  then have n: "list_all (\<lambda>lr. 0 \<le> fst lr) ?rs" using assms(5) by (auto simp: list_all_iff)
  have "list_all (\<lambda>lr. 0 \<le> fst lr) (map (set_date lib) ?rs)"
    using n by (simp add: list_all_iff set_date_def)
  then show ?thesis using run d by (simp add: fst_set_date del: map_map)
qed

lemma filterData_labels:
  assumes "filters_ok lib (frames s r) fs"
    and "distinct (map fst (rows (frames s r)))" and "list_all (\<lambda>lr. 0 \<le> fst lr) (rows (frames s r))"
  shows "\<exists>s' r'. filterData lib s r fs = Inr (s', r') \<and> distinct (map fst (rows (frames s' r'))) \<and>
           list_all (\<lambda>lr. 0 \<le> fst lr) (rows (frames s' r'))"
proof -
  from filterData_frame[OF assms(1)] obtain s' r' where
    run: "filterData lib s r fs = Inr (s', r')"
    and fr: "frames s' r' = (frames s r)\<lparr>rows := filter (passes lib fs) (rows (frames s r))\<rparr>"
    by blast
  have "distinct (map fst (filter (passes lib fs) (rows (frames s r))))"
    using assms(2) by (rule distinct_map_filter)
  moreover have "list_all (\<lambda>lr. 0 \<le> fst lr) (filter (passes lib fs) (rows (frames s r)))"
    using assms(3) by (simp add: list_all_iff)
  ultimately show ?thesis using run fr by simp
qed

text \<open>
  The sibling path: with at least one filter the frame that is recalculated is a fresh
  one, and the base frame is as it was after the output.
\<close>

lemma filtered_output_keeps_base:
  assumes run: "generateImportDataFile lib s df n c fs rc = Inr (s', w)"
    and df: "df < next_ref s" and ok: "filters_ok lib (frames s df) fs" and ne: "fs \<noteq> []"
  shows "frames s' df = frames s df"
proof (cases "c \<in> set (columns (frames s df))")
  case False
  with run show ?thesis by (simp add: generateImportDataFile_def)
next
  case True
  from filterData_frame[OF ok] ne obtain s1 f where
    fd: "filterData lib s df fs = Inr (s1, f)"
    and old: "\<forall>q < next_ref s. q \<noteq> f \<longrightarrow> frames s1 q = frames s q"
    and nx: "next_ref s \<le> next_ref s1" and fresh: "next_ref s \<le> f"
    by auto
  from run True fd obtain s2 f2 where
    rc: "(if rc then recalculateData lib s1 f c else Inr (s1, f)) = Inr (s2, f2)"
    by (auto simp: generateImportDataFile_def split: sum.splits)
  have s': "s' = fst (new_frame s2 (filter_items (frames s2 f2) [inputFileDateColumnName, c]))"
    using run True fd rc by (simp add: generateImportDataFile_def Let_def)
  have k1: "frames s1 df = frames s df" using old df fresh by simp
  have k2: "next_ref s2 = next_ref s1 \<and> frames s2 df = frames s1 df"
  proof (cases rc)
    case True
    with rc have "recalculateData lib s1 f c = Inr (s2, f2)" by simp
    from recalculateData_keeps[OF this] df fresh show ?thesis by simp
  next
    case False
    with rc show ?thesis by simp
  qed
  have "frames s' df = frames s2 df" using df nx k2 by (simp add: s' new_frame_def)
  with k1 k2 show ?thesis by simp
qed

end
